theory Spec2Isabelle
  imports Main "HOL-Library.AList" "HOL-Library.Sublist"
begin

section \<open>The lab notebook generator (ai\_scientist/lab\_notebook.py)\<close>

text \<open>
  The script is one function, \<open>create_lab_notebook\<close>, that works on three external
  collaborators: the filesystem, a vision model that describes figures and a language
  model that writes and revises the notebook. The embedding keeps the function's
  statement order and makes every effect explicit:
  \<^item> the filesystem is a tree of directories and files, and every path operation of the
    source (\<open>osp.exists\<close>, \<open>open\<close>, \<open>shutil.rmtree\<close>, \<open>os.makedirs\<close>,
    \<open>shutil.copytree\<close>, \<open>os.listdir\<close>) is a function on that tree;
  \<^item> an exception is a value of type \<open>exn\<close>; a computation returns either an exception
    or a result, together with the world it leaves behind;
  \<^item> standard output and the requests sent to the language model are recorded in the
    world, so that what was printed and how many model calls were made can be stated;
  \<^item> the collaborators whose code is not part of the file (the JSON parser and printer,
    the two clients) are fields of an environment record and are arbitrary.
\<close>

subsection \<open>Exceptions\<close>

text \<open>
  The subclasses of Python's \<open>Exception\<close> the script can meet. \<open>OtherError\<close> stands for
  any exception raised inside a collaborator (network failure, bad model name, ...).
\<close>

datatype exn =
    FileNotFoundError
  | NotADirectoryError
  | IsADirectoryError
  | FileExistsError
  | JSONDecodeError
  | OtherError string

subsection \<open>Paths\<close>

text \<open>\<open>posixpath.join\<close> for two arguments.\<close>

definition osp_join :: "string \<Rightarrow> string \<Rightarrow> string" where
  "osp_join a b =
     (if take 1 b = ''/'' then b
      else if a = [] \<or> last a = CHR ''/'' then a @ b
      else a @ ''/'' @ b)"

text \<open>
  A path without its trailing separators, unless it consists of separators only; and
  \<open>posixpath.split\<close>: the part up to the last separator, so trimmed, and the part after
  it.
\<close>

definition rstrip_sep :: "string \<Rightarrow> string" where
  "rstrip_sep p =
     (if p \<noteq> [] \<and> \<not> list_all (\<lambda>c. c = CHR ''/'') p
      then rev (dropWhile (\<lambda>c. c = CHR ''/'') (rev p))
      else p)"

definition osp_split :: "string \<Rightarrow> string \<times> string" where
  "osp_split p =
     (rstrip_sep (rev (dropWhile (\<lambda>c. c \<noteq> CHR ''/'') (rev p))),
      rev (takeWhile (\<lambda>c. c \<noteq> CHR ''/'') (rev p)))"

text \<open>The components of a path, the empty ones included (\<open>p.split("/")\<close>).\<close>

fun split_sep :: "string \<Rightarrow> string \<Rightarrow> string list" where
  "split_sep cur [] = [cur]"
| "split_sep cur (c # cs) =
     (if c = CHR ''/'' then cur # split_sep [] cs else split_sep (cur @ [c]) cs)"

definition components :: "string \<Rightarrow> string list" where
  "components p = split_sep [] p"

subsection \<open>The filesystem\<close>

text \<open>
  The filesystem is a tree of directories and regular files. There are no symbolic links,
  no permissions and no limits on the length of a name or a path; a path holds no NUL
  character. The working directory is the root of the tree, so that a relative and an
  absolute path read alike, and the parent of the root is the root. A location is the
  list of names that leads from the root to a place in the tree.
\<close>

datatype node = File string | Dir "(string \<times> node) list"

fun lookup :: "node \<Rightarrow> string list \<Rightarrow> node option" where
  "lookup n [] = Some n"
| "lookup (File c) (x # xs) = None"
| "lookup (Dir es) (x # xs) = (case map_of es x of None \<Rightarrow> None | Some n \<Rightarrow> lookup n xs)"

text \<open>
  How the operating system resolves a path: component by component, in the tree as it
  is. Before each component the place reached so far has to be an existing directory;
  the resolution fails with \<open>ENOENT\<close> when nothing is there and with \<open>ENOTDIR\<close> when a
  file is there. An empty component and \<open>.\<close> stay where they are, \<open>..\<close> goes to the
  parent, a name goes to the entry of that name in the directory. So \<open>x/..\<close> leads back
  only when \<open>x\<close> is an existing directory. The entry named by the last component need
  not exist: the result is the location the path points to. The empty path resolves to
  nothing.
\<close>

definition next_location :: "string list \<Rightarrow> string \<Rightarrow> string list" where
  "next_location cur c =
     (if c = [] \<or> c = ''.'' then cur
      else if c = ''..'' then butlast cur
      else cur @ [c])"

fun walk :: "node \<Rightarrow> string list \<Rightarrow> string list \<Rightarrow> exn + string list" where
  "walk t cur [] = Inr cur"
| "walk t cur (c # cs) =
     (case lookup t cur of
        None \<Rightarrow> Inl FileNotFoundError
      | Some (File x) \<Rightarrow> Inl NotADirectoryError
      | Some (Dir es) \<Rightarrow> walk t (next_location cur c) cs)"

definition resolve :: "node \<Rightarrow> string \<Rightarrow> exn + string list" where
  "resolve t p = (if p = [] then Inl FileNotFoundError else walk t [] (components p))"

text \<open>
  \<open>os.stat\<close>: the node a path leads to. \<open>os.path.exists\<close> and \<open>os.path.isdir\<close> are
  \<open>False\<close> when it fails.
\<close>

definition node_at :: "node \<Rightarrow> string \<Rightarrow> exn + node" where
  "node_at t p =
     (case resolve t p of
        Inl e \<Rightarrow> Inl e
      | Inr loc \<Rightarrow> (case lookup t loc of None \<Rightarrow> Inl FileNotFoundError | Some n \<Rightarrow> Inr n))"

definition path_exists :: "node \<Rightarrow> string \<Rightarrow> bool" where
  "path_exists t p = (\<not> isl (node_at t p))"

definition path_isdir :: "node \<Rightarrow> string \<Rightarrow> bool" where
  "path_isdir t p = (case node_at t p of Inr (Dir es) \<Rightarrow> True | _ \<Rightarrow> False)"

text \<open>
  \<open>update_at loc f t\<close> replaces the entry at the location \<open>loc\<close> by what \<open>f\<close> makes of the
  present one (\<open>None\<close>: no entry). The parent of \<open>loc\<close> has to be an existing directory.
\<close>

fun update_at :: "string list \<Rightarrow> (node option \<Rightarrow> exn + node option) \<Rightarrow> node \<Rightarrow> exn + node" where
  "update_at [] f n = Inl IsADirectoryError"
| "update_at (x # xs) f (File c) = Inl NotADirectoryError"
| "update_at (x # xs) f (Dir es) =
     (if xs = [] then
        (case f (map_of es x) of
           Inl e \<Rightarrow> Inl e
         | Inr None \<Rightarrow> Inr (Dir (AList.delete x es))
         | Inr (Some n) \<Rightarrow> Inr (Dir (AList.update x n es)))
      else
        (case map_of es x of
           None \<Rightarrow> Inl FileNotFoundError
         | Some n \<Rightarrow>
             (case update_at xs f n of
                Inl e \<Rightarrow> Inl e
              | Inr n' \<Rightarrow> Inr (Dir (AList.update x n' es)))))"

text \<open>
  \<open>open(path, "w")\<close> followed by one \<open>write\<close>: the file is created or truncated. A
  directory cannot be opened for writing, and a path that ends with a separator names a
  directory.
\<close>

definition write_at :: "string list \<Rightarrow> string \<Rightarrow> node \<Rightarrow> exn + node" where
  "write_at loc content t =
     update_at loc (\<lambda>old. case old of Some (Dir es) \<Rightarrow> Inl IsADirectoryError
                                     | _ \<Rightarrow> Inr (Some (File content))) t"

definition write_file :: "string \<Rightarrow> string \<Rightarrow> node \<Rightarrow> exn + node" where
  "write_file p content t =
     (case resolve t (rstrip_sep p) of
        Inl e \<Rightarrow> Inl e
      | Inr loc \<Rightarrow> (if p \<noteq> rstrip_sep p then Inl IsADirectoryError else write_at loc content t))"

text \<open>
  \<open>shutil.rmtree\<close> of a path whose last component is a name, as the one the script
  removes is. The path has to lead to a directory. The function opens that directory and
  removes all it holds, and then removes the directory itself with \<open>os.rmdir(path)\<close>,
  which resolves the path once more: when the path led through a directory that is gone
  by then, \<open>os.rmdir\<close> raises and the emptied directory stays.
\<close>

definition rmdir_at :: "string list \<Rightarrow> node \<Rightarrow> exn + node" where
  "rmdir_at loc t =
     update_at loc (\<lambda>old. case old of
                            None \<Rightarrow> Inl FileNotFoundError
                          | Some (File c) \<Rightarrow> Inl NotADirectoryError
                          | Some (Dir es) \<Rightarrow>
                              if es = [] then Inr None
                              else Inl (OtherError ''OSError: Directory not empty'')) t"

definition rmtree :: "string \<Rightarrow> node \<Rightarrow> (exn + unit) \<times> node" where
  "rmtree p t =
     (case resolve t p of
        Inl e \<Rightarrow> (Inl e, t)
      | Inr loc \<Rightarrow>
          (case update_at loc (\<lambda>old. case old of
                                     None \<Rightarrow> Inl FileNotFoundError
                                   | Some (File c) \<Rightarrow> Inl NotADirectoryError
                                   | Some (Dir es) \<Rightarrow> Inr (Some (Dir []))) t of
             Inl e \<Rightarrow> (Inl e, t)
           | Inr t1 \<Rightarrow>
               (case resolve t1 p of
                  Inl e \<Rightarrow> (Inl e, t1)
                | Inr loc' \<Rightarrow>
                    (case rmdir_at loc' t1 of
                       Inl e \<Rightarrow> (Inl e, t1)
                     | Inr t2 \<Rightarrow> (Inr (), t2)))))"

text \<open>
  \<open>os.mkdir\<close>: trailing separators do not count; nothing may exist where the path points
  to, and an empty directory is made there.
\<close>

definition mkdir :: "string \<Rightarrow> node \<Rightarrow> exn + node" where
  "mkdir p t =
     (case resolve t (rstrip_sep p) of
        Inl e \<Rightarrow> Inl e
      | Inr loc \<Rightarrow>
          (if lookup t loc \<noteq> None then Inl FileExistsError
           else update_at loc (\<lambda>old. Inr (Some (Dir []))) t))"

text \<open>
  \<open>os.makedirs(name, exist_ok=exist_ok)\<close>, as the standard library defines it. The
  function splits \<open>name\<close> into \<open>head\<close> and \<open>tail\<close> (\<open>makedirs_split\<close>: once more when the
  tail is empty); when the head does not exist it first calls itself on the head,
  ignores a \<open>FileExistsError\<close> of that call, and returns at once when the tail is \<open>.\<close>;
  then it makes the directory \<open>name\<close> (\<open>mkdir_leaf\<close>), where an error of \<open>os.mkdir\<close> is
  ignored if \<open>exist_ok\<close> holds and \<open>name\<close> is a directory. The directories made before
  an exception stay.
\<close>

definition mkdir_leaf :: "bool \<Rightarrow> string \<Rightarrow> node \<Rightarrow> (exn + unit) \<times> node" where
  "mkdir_leaf exist_ok name t =
     (case mkdir name t of
        Inr t' \<Rightarrow> (Inr (), t')
      | Inl e \<Rightarrow> (if \<not> exist_ok \<or> \<not> path_isdir t name then (Inl e, t) else (Inr (), t)))"

definition makedirs_split :: "string \<Rightarrow> string \<times> string" where
  "makedirs_split name =
     (if snd (osp_split name) = [] then osp_split (fst (osp_split name)) else osp_split name)"

function makedirs :: "bool \<Rightarrow> string \<Rightarrow> node \<Rightarrow> (exn + unit) \<times> node" where
  "makedirs exist_ok name t =
     (if fst (makedirs_split name) \<noteq> [] \<and> snd (makedirs_split name) \<noteq> []
         \<and> \<not> path_exists t (fst (makedirs_split name))
      then
        (case makedirs exist_ok (fst (makedirs_split name)) t of
           (r, t1) \<Rightarrow>
             if r \<noteq> Inr () \<and> r \<noteq> Inl FileExistsError then (r, t1)
             else if snd (makedirs_split name) = ''.'' then (Inr (), t1)
             else mkdir_leaf exist_ok name t1)
      else mkdir_leaf exist_ok name t)"
  by pat_completeness auto

termination
proof (relation "measure (\<lambda>(exist_ok, name, t). length name)")
  fix exist_ok :: bool and name :: string and t :: node
  assume "fst (makedirs_split name) \<noteq> [] \<and> snd (makedirs_split name) \<noteq> []
            \<and> \<not> path_exists t (fst (makedirs_split name))"
  then have tail: "0 < length (snd (makedirs_split name))" by simp
  have shorter: "length (rstrip_sep q) \<le> length q" for q
    unfolding rstrip_sep_def by (simp add: length_dropWhile_le) (metis length_dropWhile_le length_rev)
  have parts: "length (fst (osp_split q)) + length (snd (osp_split q)) \<le> length q" for q
  proof -
    have "length (rev (dropWhile (\<lambda>c. c \<noteq> CHR ''/'') (rev q)))
          + length (rev (takeWhile (\<lambda>c. c \<noteq> CHR ''/'') (rev q))) = length q"
      by (metis length_append length_rev takeWhile_dropWhile_id add.commute)
    with shorter [of "rev (dropWhile (\<lambda>c. c \<noteq> CHR ''/'') (rev q))"]
    show ?thesis by (simp add: osp_split_def)
  qed
  have "length (fst (makedirs_split name)) + length (snd (makedirs_split name)) \<le> length name"
    using parts [of name] parts [of "fst (osp_split name)"] by (simp add: makedirs_split_def)
  with tail show "((exist_ok, fst (makedirs_split name), t), (exist_ok, name, t))
                    \<in> measure (\<lambda>(exist_ok, name, t). length name)"
    by (cases "snd (makedirs_split name)") simp_all
qed simp

declare makedirs.simps [simp del]

text \<open>
  \<open>shutil.copytree(src, dst)\<close>: the entries of the source directory are listed, the
  destination is made with \<open>os.makedirs(dst, exist_ok=False)\<close>, and the entries are
  copied into it. The script's destination ends with the name \<open>figures\<close>;
  \<open>os.makedirs\<close> then returns only after making a new, empty directory, which receives
  the copy. It is a sibling of the source, not a place inside it. (For a destination
  that ends with \<open>.\<close>, \<open>os.makedirs\<close> can return on a directory that holds entries
  already; that case is outside what is modelled.)
\<close>

definition copytree :: "string \<Rightarrow> string \<Rightarrow> node \<Rightarrow> (exn + unit) \<times> node" where
  "copytree src dst t =
     (case node_at t src of
        Inl e \<Rightarrow> (Inl e, t)
      | Inr (File c) \<Rightarrow> (Inl NotADirectoryError, t)
      | Inr (Dir es) \<Rightarrow>
          (case makedirs False dst t of
             (Inl e, t1) \<Rightarrow> (Inl e, t1)
           | (Inr u, t1) \<Rightarrow>
               (case resolve t1 dst of
                  Inl e \<Rightarrow> (Inl e, t1)
                | Inr loc \<Rightarrow>
                    (case update_at loc (\<lambda>old. Inr (Some (Dir es))) t1 of
                       Inl e \<Rightarrow> (Inl e, t1)
                     | Inr t2 \<Rightarrow> (Inr (), t2)))))"

text \<open>
  Reading a file opened in text mode translates the line endings \<open>\r\n\<close> and \<open>\r\<close>
  to \<open>\n\<close> (Python's universal newlines, the default of \<open>open(path, "r")\<close>). Writing
  in text mode on a POSIX system stores the characters as they are.
\<close>

fun universal_newlines :: "string \<Rightarrow> string" where
  "universal_newlines [] = []"
| "universal_newlines (c # cs) =
     (if c = CHR 0x0D then
        (case cs of
           [] \<Rightarrow> [CHR 0x0A]
         | d # ds \<Rightarrow>
             (if d = CHR 0x0A then CHR 0x0A # universal_newlines ds
              else CHR 0x0A # universal_newlines cs))
      else c # universal_newlines cs)"

text \<open>What a location shows to an observer: nothing, a directory, or a file and its content.\<close>

datatype entry = Directory | RegularFile string

definition stat_at :: "node \<Rightarrow> string list \<Rightarrow> entry option" where
  "stat_at t loc =
     (case lookup t loc of
        None \<Rightarrow> None
      | Some (Dir es) \<Rightarrow> Some Directory
      | Some (File c) \<Rightarrow> Some (RegularFile c))"

subsection \<open>The world and computations on it\<close>

datatype printed = Line string | Traceback exn

record world =
  root :: node
  stdout :: "printed list"
  llm_requests :: "string list"

text \<open>
  A computation takes the world and returns an exception (\<open>Inl\<close>) or a result
  (\<open>Inr\<close>), and the world as it is then.
\<close>

type_synonym 'a io = "world \<Rightarrow> (exn + 'a) \<times> world"

definition io_return :: "'a \<Rightarrow> 'a io" where
  "io_return x = (\<lambda>w. (Inr x, w))"

definition io_bind :: "'a io \<Rightarrow> ('a \<Rightarrow> 'b io) \<Rightarrow> 'b io" where
  "io_bind m f = (\<lambda>w. case m w of (Inl e, w') \<Rightarrow> (Inl e, w') | (Inr x, w') \<Rightarrow> f x w')"

text \<open>\<open>try: m except Exception: h\<close>.\<close>

definition io_try :: "'a io \<Rightarrow> (exn \<Rightarrow> 'a io) \<Rightarrow> 'a io" where
  "io_try m h = (\<lambda>w. case m w of (Inl e, w') \<Rightarrow> h e w' | (Inr x, w') \<Rightarrow> (Inr x, w'))"

text \<open>\<open>try: m except json.JSONDecodeError: h\<close>: every other exception passes.\<close>

definition io_try_json :: "'a io \<Rightarrow> 'a io \<Rightarrow> 'a io" where
  "io_try_json m h =
     (\<lambda>w. case m w of
             (Inl e, w') \<Rightarrow> (if e = JSONDecodeError then h w' else (Inl e, w'))
           | (Inr x, w') \<Rightarrow> (Inr x, w'))"

text \<open>The result of a call that does not touch the world.\<close>

definition io_of :: "exn + 'a \<Rightarrow> 'a io" where
  "io_of r = (\<lambda>w. (r, w))"

text \<open>A change of the directory tree that may fail; a failure leaves the tree as it was.\<close>

definition io_tree :: "(node \<Rightarrow> exn + node) \<Rightarrow> unit io" where
  "io_tree f =
     (\<lambda>w. case f (root w) of Inl e \<Rightarrow> (Inl e, w) | Inr t \<Rightarrow> (Inr (), w\<lparr>root := t\<rparr>))"

text \<open>A change of the directory tree in several steps: what was done before a failure stays.\<close>

definition io_tree_steps :: "(node \<Rightarrow> (exn + unit) \<times> node) \<Rightarrow> unit io" where
  "io_tree_steps f = (\<lambda>w. case f (root w) of (r, t) \<Rightarrow> (r, w\<lparr>root := t\<rparr>))"

definition osp_exists :: "string \<Rightarrow> bool io" where
  "osp_exists p = (\<lambda>w. (Inr (path_exists (root w) p), w))"

definition read_text :: "string \<Rightarrow> string io" where
  "read_text p =
     (\<lambda>w. case node_at (root w) p of
             Inl e \<Rightarrow> (Inl e, w)
           | Inr (Dir es) \<Rightarrow> (Inl IsADirectoryError, w)
           | Inr (File c) \<Rightarrow> (Inr (universal_newlines c), w))"

definition write_text :: "string \<Rightarrow> string \<Rightarrow> unit io" where
  "write_text p content = io_tree (write_file p content)"

definition shutil_rmtree :: "string \<Rightarrow> unit io" where
  "shutil_rmtree p = io_tree_steps (rmtree p)"

definition os_makedirs :: "string \<Rightarrow> bool \<Rightarrow> unit io" where
  "os_makedirs p exist_ok = io_tree_steps (makedirs exist_ok p)"

definition shutil_copytree :: "string \<Rightarrow> string \<Rightarrow> unit io" where
  "shutil_copytree src dst = io_tree_steps (copytree src dst)"

definition os_listdir :: "string \<Rightarrow> string list io" where
  "os_listdir p =
     (\<lambda>w. case node_at (root w) p of
             Inl e \<Rightarrow> (Inl e, w)
           | Inr (File c) \<Rightarrow> (Inl NotADirectoryError, w)
           | Inr (Dir es) \<Rightarrow> (Inr (map fst es), w))"

definition print_line :: "string \<Rightarrow> unit io" where
  "print_line s = (\<lambda>w. (Inr (), w\<lparr>stdout := stdout w @ [Line s]\<rparr>))"

text \<open>\<open>print(traceback.format_exc())\<close> in a handler of the exception \<open>e\<close>.\<close>

definition print_traceback :: "exn \<Rightarrow> unit io" where
  "print_traceback e = (\<lambda>w. (Inr (), w\<lparr>stdout := stdout w @ [Traceback e]\<rparr>))"

subsection \<open>Strings\<close>

text \<open>
  Characters are code points below 256. \<open>is_space\<close> is \<open>str.isspace\<close> there, and
  \<open>lower_char\<close> is \<open>str.lower\<close>.
\<close>

definition is_space :: "char \<Rightarrow> bool" where
  "is_space c =
     (let n = (of_char c :: nat)
      in (9 \<le> n \<and> n \<le> 13) \<or> (28 \<le> n \<and> n \<le> 32) \<or> n = 133 \<or> n = 160)"

definition strip :: "string \<Rightarrow> string" where
  "strip s = rev (dropWhile is_space (rev (dropWhile is_space s)))"

definition lower_char :: "char \<Rightarrow> char" where
  "lower_char c =
     (let n = (of_char c :: nat)
      in if (65 \<le> n \<and> n \<le> 90) \<or> (192 \<le> n \<and> n \<le> 214) \<or> (216 \<le> n \<and> n \<le> 222)
         then char_of (n + 32) else c)"

definition str_lower :: "string \<Rightarrow> string" where
  "str_lower s = map lower_char s"

definition startswith :: "string \<Rightarrow> string \<Rightarrow> bool" where
  "startswith s pre = (take (length pre) s = pre)"

definition endswith :: "string \<Rightarrow> string \<Rightarrow> bool" where
  "endswith s suf = (take (length suf) (rev s) = rev suf)"

text \<open>\<open>sub in s\<close>.\<close>

fun contains :: "string \<Rightarrow> string \<Rightarrow> bool" where
  "contains sub [] = (sub = [])"
| "contains sub (c # cs) = (startswith (c # cs) sub \<or> contains sub cs)"

text \<open>\<open>sep.join(xs)\<close>.\<close>

fun str_join :: "string \<Rightarrow> string list \<Rightarrow> string" where
  "str_join sep [] = []"
| "str_join sep [x] = x"
| "str_join sep (x # y # ys) = x @ sep @ str_join sep (y # ys)"

text \<open>\<open>str(n)\<close> for a natural number.\<close>

fun str_of_nat :: "nat \<Rightarrow> string" where
  "str_of_nat n =
     (if n < 10 then [char_of (48 + n)]
      else str_of_nat (n div 10) @ [char_of (48 + n mod 10)])"

declare str_of_nat.simps [simp del]

subsection \<open>The regular expression\<close>

text \<open>
  \<open>re.search(r"```markdown(.*?)```", s, re.DOTALL)\<close>, returning \<open>group(1)\<close> of the match.
  The search tries the start positions from the left. At a start position the opening
  fence has to stand there; the lazy group then takes as few characters as will do (any
  character, line ends included) before a closing fence.
\<close>

fun lazy_until_fence :: "string \<Rightarrow> string option" where
  "lazy_until_fence [] = None"
| "lazy_until_fence (c # cs) =
     (if startswith (c # cs) ''```'' then Some []
      else map_option ((#) c) (lazy_until_fence cs))"

definition match_here :: "string \<Rightarrow> string option" where
  "match_here s =
     (if startswith s ''```markdown'' then lazy_until_fence (drop (length ''```markdown'') s)
      else None)"

fun re_search_markdown :: "string \<Rightarrow> string option" where
  "re_search_markdown [] = None"
| "re_search_markdown (c # cs) =
     (case match_here (c # cs) of
        Some g \<Rightarrow> Some g
      | None \<Rightarrow> re_search_markdown cs)"

subsection \<open>The collaborators\<close>

text \<open>
  A parsed JSON value. The script never computes with numbers, so a number keeps its
  text.
\<close>

datatype json =
    JNull
  | JBool bool
  | JNumber string
  | JString string
  | JArray "json list"
  | JObject "(string \<times> json) list"

text \<open>
  What the script calls and does not define:
  \<^item> \<open>json_load\<close>: \<open>json.load\<close> on the text of a file;
  \<^item> \<open>json_dumps\<close>: \<open>json.dumps(_, indent=2)\<close>;
  \<^item> \<open>create_vlm_client\<close>, \<open>generate_vlm_img_review\<close> (given the path of the image; its
    result is \<open>None\<close> or a dictionary);
  \<^item> \<open>create_client\<close> (returning the model name to use) and \<open>get_response_from_llm\<close>
    (given the prompt, the model, the system message and the message history, it returns
    the response and the new history). \<open>'h\<close> is the type of message histories.
\<close>

record 'h env =
  json_load :: "string \<Rightarrow> exn + json"
  json_dumps :: "json \<Rightarrow> string"
  create_vlm_client :: "string \<Rightarrow> exn + unit"
  generate_vlm_img_review :: "string \<Rightarrow> exn + (string \<times> string) list option"
  create_client :: "string \<Rightarrow> exn + string"
  get_response_from_llm :: "string \<Rightarrow> string \<Rightarrow> string \<Rightarrow> 'h option \<Rightarrow> exn + string \<times> 'h"

text \<open>A call of the language model is an effect: the prompt is recorded.\<close>

definition llm_call ::
  "'h env \<Rightarrow> string \<Rightarrow> string \<Rightarrow> string \<Rightarrow> 'h option \<Rightarrow> (string \<times> 'h) io" where
  "llm_call env prompt client_model system_message msg_history =
     (\<lambda>w. (get_response_from_llm env prompt client_model system_message msg_history,
           w\<lparr>llm_requests := llm_requests w @ [prompt]\<rparr>))"

subsection \<open>The prompts\<close>

definition notebook_system_message_template :: string where
  "notebook_system_message_template =
     ''You are a ambitious AI researcher trying to create a lab notebook \<newline>'' @
     ''summarizing your experiments. Your supervisor will use this notebook to understand your experimental \<newline>'' @
     ''work, track progress, assess results, give feedback, and potentially guide future research directions. \<newline>'' @
     ''The notebook must be clear, experiments should be explicit, and enable the supervisor to understand everything \<newline>'' @
     ''without overloading him with too much information.\<newline>'' @
     ''\<newline>'' @
     ''Your lab notebook should follow a structured format that enables quick comprehension and easy navigation:\<newline>'' @
     ''\<newline>'' @
     ''## **General Guidelines**:\<newline>'' @
     ''- Use clear, concise language that balances technical precision with readability\<newline>'' @
     ''- Maintain consistent formatting and organization throughout\<newline>'' @
     ''- Highlight key insights, breakthroughs, and decision points\<newline>'' @
     ''\<newline>'' @
     ''## **Structure for Each Experiment Entry**:\<newline>'' @
     ''\<newline>'' @
     ''- **Experiment Title**:\<newline>'' @
     ''  - Clear, descriptive title that captures the experiment's purpose\<newline>'' @
     ''\<newline>'' @
     ''- **Motivation & Hypothesis**:\<newline>'' @
     ''  - Briefly explain why this experiment was conducted\<newline>'' @
     ''  - State clear hypotheses or research questions being tested\<newline>'' @
     ''  - Connect to broader research goals and previous experiments\<newline>'' @
     ''  \<newline>'' @
     ''- **Experimental Setup**:\<newline>'' @
     ''  - Describe the methodology concisely but completely\<newline>'' @
     ''  - Include key parameters, datasets, models, and configurations\<newline>'' @
     ''  - Note any changes from previous experiments\<newline>'' @
     ''  - Specify evaluation metrics and success criteria\<newline>'' @
     ''  \<newline>'' @
     ''- **Results**:\<newline>'' @
     ''  - Present findings objectively with appropriate visualizations\<newline>'' @
     ''  - Include quantitative results (tables, metrics) and qualitative observations\<newline>'' @
     ''  - Report both positive and negative results honestly\<newline>'' @
     ''  - Highlight unexpected findings or anomalies\<newline>'' @
     ''  \<newline>'' @
     ''- **Analysis & Interpretation**:\<newline>'' @
     ''  - Interpret results in context of the original hypothesis\<newline>'' @
     ''  - Compare with baseline methods or previous experiments\<newline>'' @
     ''  - Identify potential causes for unexpected outcomes\<newline>'' @
     ''  - Assess statistical significance and practical importance\<newline>'' @
     ''\<newline>'' @
     ''- **Key Insights & Lessons Learned**:\<newline>'' @
     ''  - Summarize the main takeaways from the experiment\<newline>'' @
     ''  - Note methodological insights or technical discoveries\<newline>'' @
     ''  - Document what worked well and what didn't\<newline>'' @
     ''  - Identify potential improvements or alternative approaches\<newline>'' @
     ''\<newline>'' @
     ''- **Next Steps**:\<newline>'' @
     ''  - Outline immediate follow-up experiments or investigations\<newline>'' @
     ''  - Suggest modifications based on current results\<newline>'' @
     ''  - Note questions that emerged from this work\<newline>'' @
     ''  \<newline>'' @
     ''## **Best Practices**:\<newline>'' @
     ''- Use clear headings and consistent formatting for easy scanning\<newline>'' @
     ''- Include relevant plots, tables, and figures with proper captions\<newline>'' @
     ''- Cross-reference related experiments and build narrative connections\<newline>'' @
     ''- Balance detail with brevity - include essential information without overwhelming\<newline>'' @
     ''- Use bullet points and numbered lists for clarity\<newline>'' @
     ''- Maintain a running glossary of key terms and abbreviations\<newline>'' @
     ''- Regular backup and version control of notebook entries\<newline>'' @
     ''\<newline>'' @
     ''Remember: Your supervisor should be able to quickly understand your progress, assess the quality of your work, and provide meaningful guidance based on your documentation. The notebook should tell a coherent story of your research journey while serving as a reliable reference for future work.\<newline>''"

definition notebook_prompt_format ::
  "string \<Rightarrow> string \<Rightarrow> string \<Rightarrow> string \<Rightarrow> string \<Rightarrow> string \<Rightarrow> string" where
  "notebook_prompt_format idea_text summaries aggregator_code plot_list current_notebook plot_descriptions =
     ''Your primary goal is to create or update a lab notebook entry. This notebook is a critical \<newline>'' @
     ''tool for your supervisor to understand your experimental work, track progress, assess results, give feedback, and \<newline>'' @
     ''guide future research directions.\<newline>'' @
     ''\<newline>'' @
     ''It is essential that the notebook entries are clear, concise, well-structured, and accurately reflect the experimental data and your analysis.\<newline>'' @
     ''\<newline>'' @
     ''Please meticulously follow the structure and guidelines for each experiment entry.\<newline>'' @
     ''\<newline>'' @
     ''The current task is to document experiments in the context of this idea:\<newline>'' @
     ''```markdown\<newline>'' @
     idea_text @
     ''\<newline>'' @
     ''```\<newline>'' @
     ''\<newline>'' @
     ''We have the following experiment summaries (JSON):\<newline>'' @
     ''```json\<newline>'' @
     summaries @
     ''\<newline>'' @
     ''```\<newline>'' @
     ''\<newline>'' @
     ''We also have a script used to produce the final plots (use this to see how the plots are generated and what names are used in the legend):\<newline>'' @
     ''```python\<newline>'' @
     aggregator_code @
     ''\<newline>'' @
     ''```\<newline>'' @
     ''Please also consider which plots should naturally be grouped together as subfigures.\<newline>'' @
     ''\<newline>'' @
     ''Available plots for the writeup (use these filenames):\<newline>'' @
     ''```\<newline>'' @
     plot_list @
     ''\<newline>'' @
     ''```\<newline>'' @
     ''\<newline>'' @
     ''We also have VLM-based figure descriptions:\<newline>'' @
     ''```\<newline>'' @
     plot_descriptions @
     ''\<newline>'' @
     ''```\<newline>'' @
     ''\<newline>'' @
     ''Your current Lab Notebook content (if this is an update to an existing notebook, this will be empty):\<newline>'' @
     ''```markdown\<newline>'' @
     current_notebook @
     ''\<newline>'' @
     ''```\<newline>'' @
     ''\<newline>'' @
     ''Return the entire lab notebook content in Markdown format, enclosed in triple backticks with `markdown` syntax highlighting, as shown below:\<newline>'' @
     ''\<newline>'' @
     ''```markdown\<newline>'' @
     ''<UPDATED MARKDOWN LAB NOTEBOOK CONTENT>\<newline>'' @
     ''```\<newline>''"

definition reflection_prompt :: string where
  "reflection_prompt =
     ''\<newline>'' @
     ''Now let's reflect and identify any issues (including but not limited to):\<newline>'' @
     ''1) Is the writing clear?\<newline>'' @
     ''2) Have we included all relevant details from the summaries without hallucinating?\<newline>'' @
     ''\<newline>'' @
     ''Please provide a revised complete notebook or repeat the same if no changes are needed.\<newline>'' @
     ''Return the entire file in full, with no unfilled placeholders!\<newline>'' @
     ''Do not hallucinate any details!\<newline>'' @
     ''\<newline>'' @
     ''If you believe you are done, simply say: \"I am done\".\<newline>''"

subsection \<open>create\_lab\_notebook\<close>

text \<open>
  The statements before the \<open>try\<close>: the notebook folder is removed when it exists and
  made anew, and the figures directory is copied into it.
\<close>

definition prepare_notebook_folder :: "string \<Rightarrow> unit io" where
  "prepare_notebook_folder base_folder =
     (let notebook_folder = osp_join base_folder ''notebook'';
          figures_dir = osp_join base_folder ''figures''
      in io_bind (osp_exists notebook_folder) (\<lambda>found.
         io_bind (if found then shutil_rmtree notebook_folder else io_return ()) (\<lambda>_.
         io_bind (os_makedirs notebook_folder True) (\<lambda>_.
         shutil_copytree figures_dir (osp_join notebook_folder ''figures'')))))"

text \<open>The idea text: \<open>research_idea.md\<close>, else \<open>idea.md\<close>, else the empty string.\<close>

definition load_idea_text :: "string \<Rightarrow> string io" where
  "load_idea_text base_folder =
     io_bind (osp_exists (osp_join base_folder ''research_idea.md'')) (\<lambda>found.
       if found then read_text (osp_join base_folder ''research_idea.md'')
       else io_bind (osp_exists (osp_join base_folder ''idea.md'')) (\<lambda>found_md.
              if found_md then read_text (osp_join base_folder ''idea.md'')
              else io_return []))"

definition summary_files :: "(string \<times> string) list" where
  "summary_files =
     [(''logs/0-run/baseline_summary.json'', ''BASELINE_SUMMARY''),
      (''logs/0-run/research_summary.json'', ''RESEARCH_SUMMARY''),
      (''logs/0-run/ablation_summary.json'', ''ABLATION_SUMMARY'')]"

text \<open>
  One summary: the parsed file, or the empty object when the file is missing or is not
  valid JSON (then with a warning).
\<close>

definition load_summary :: "'h env \<Rightarrow> string \<Rightarrow> string \<Rightarrow> string \<Rightarrow> json io" where
  "load_summary env base_folder fname key =
     (let path = osp_join base_folder fname
      in io_bind (osp_exists path) (\<lambda>found.
           if found then
             io_try_json
               (io_bind (read_text path) (\<lambda>txt. io_of (json_load env txt)))
               (io_bind
                  (print_line (''Warning: '' @ fname @ '' is not valid JSON. Using empty data for ''
                               @ key @ ''.''))
                  (\<lambda>_. io_return (JObject [])))
           else io_return (JObject [])))"

text \<open>The loop over \<open>summary_files\<close>; \<open>loaded_summaries[key] = v\<close> is \<open>AList.update\<close>.\<close>

fun load_summaries ::
  "'h env \<Rightarrow> string \<Rightarrow> (string \<times> string) list \<Rightarrow> (string \<times> json) list
     \<Rightarrow> (string \<times> json) list io" where
  "load_summaries env base_folder [] loaded_summaries = io_return loaded_summaries"
| "load_summaries env base_folder ((fname, key) # rest) loaded_summaries =
     io_bind (load_summary env base_folder fname key) (\<lambda>v.
       load_summaries env base_folder rest (AList.update key v loaded_summaries))"

definition load_current_notebook :: "string \<Rightarrow> string io" where
  "load_current_notebook notebook_file =
     io_bind (osp_exists notebook_file) (\<lambda>found.
       if found then read_text notebook_file else io_return [])"

definition gather_plot_names :: "string \<Rightarrow> string list io" where
  "gather_plot_names figures_dir =
     io_bind (osp_exists figures_dir) (\<lambda>found.
       if found then
         io_bind (os_listdir figures_dir) (\<lambda>names.
           io_return (filter (\<lambda>fplot. endswith (str_lower fplot) ''.png'') names))
       else io_return [])"

definition load_aggregator_code :: "string \<Rightarrow> string io" where
  "load_aggregator_code base_folder =
     io_bind (osp_exists (osp_join base_folder ''auto_plot_aggregator.py'')) (\<lambda>found.
       if found then read_text (osp_join base_folder ''auto_plot_aggregator.py'')
       else io_return ''No aggregator script found.'')"

text \<open>
  The first loop of the description block: one review per plot that exists;
  \<open>desc_map[pf] = d\<close> is \<open>AList.update\<close>. \<open>review_text\<close> is what the loop stores for a
  review: its \<open>Img_description\<close> when the review is a non-empty dictionary that has one.
\<close>

definition review_text :: "(string \<times> string) list option \<Rightarrow> string" where
  "review_text review_data =
     (case review_data of
        None \<Rightarrow> ''No description found''
      | Some d \<Rightarrow>
          (if d \<noteq> [] then
             (case map_of d ''Img_description'' of
                Some t \<Rightarrow> t
              | None \<Rightarrow> ''No description found'')
           else ''No description found''))"

fun review_plots ::
  "'h env \<Rightarrow> string \<Rightarrow> string list \<Rightarrow> (string \<times> string) list \<Rightarrow> (string \<times> string) list io" where
  "review_plots env figures_dir [] desc_map = io_return desc_map"
| "review_plots env figures_dir (pf # rest) desc_map =
     (let ppath = osp_join figures_dir pf
      in io_bind (osp_exists ppath) (\<lambda>found.
           if \<not> found then review_plots env figures_dir rest desc_map
           else io_bind (io_of (generate_vlm_img_review env ppath)) (\<lambda>review_data.
                  review_plots env figures_dir rest
                    (AList.update pf (review_text review_data) desc_map))))"

text \<open>The second loop: one line per plot name, in the order of the names.\<close>

definition plot_description_lines :: "string list \<Rightarrow> (string \<times> string) list \<Rightarrow> string list" where
  "plot_description_lines plot_names desc_map =
     map (\<lambda>fname. fname @ '': '' @
            (case map_of desc_map fname of Some t \<Rightarrow> t | None \<Rightarrow> ''No description found''))
         plot_names"

text \<open>The description block with its own \<open>try\<close>.\<close>

definition describe_plots :: "'h env \<Rightarrow> string \<Rightarrow> string list \<Rightarrow> string io" where
  "describe_plots env figures_dir plot_names =
     io_try
       (io_bind (io_of (create_vlm_client env ''gpt-4o-2024-05-13'')) (\<lambda>_.
        io_bind (review_plots env figures_dir plot_names []) (\<lambda>desc_map.
        io_return (str_join ''\<newline>'' (plot_description_lines plot_names desc_map)))))
       (\<lambda>e. io_bind (print_line ''EXCEPTION in VLM figure description generation:'') (\<lambda>_.
            io_bind (print_traceback e) (\<lambda>_.
            io_return ''No descriptions available.'')))"

text \<open>The local variables the first part of the \<open>try\<close> block computes.\<close>

record gathered =
  idea_text :: string
  loaded_summaries :: "(string \<times> json) list"
  combined_summaries_str :: string
  current_notebook :: string
  plot_names :: "string list"
  aggregator_code :: string
  plot_descriptions_str :: string

definition notebook_file_of :: "string \<Rightarrow> string" where
  "notebook_file_of base_folder =
     osp_join (osp_join base_folder ''notebook'') ''lab_notebook.md''"

definition gather_inputs :: "'h env \<Rightarrow> string \<Rightarrow> gathered io" where
  "gather_inputs env base_folder =
     io_bind (load_idea_text base_folder) (\<lambda>idea.
     io_bind (load_summaries env base_folder summary_files []) (\<lambda>loaded.
     io_bind (load_current_notebook (notebook_file_of base_folder)) (\<lambda>current.
     io_bind (gather_plot_names (osp_join base_folder ''figures'')) (\<lambda>names.
     io_bind (load_aggregator_code base_folder) (\<lambda>aggregator.
     io_bind (describe_plots env (osp_join base_folder ''figures'') names) (\<lambda>descriptions.
     io_return
       \<lparr>idea_text = idea,
        loaded_summaries = loaded,
        combined_summaries_str = json_dumps env (JObject loaded),
        current_notebook = current,
        plot_names = names,
        aggregator_code = aggregator,
        plot_descriptions_str = descriptions\<rparr>))))))"

text \<open>The nested function \<open>save_notebook\<close>; \<open>notebook_file\<close> is the variable it closes over.\<close>

definition save_notebook :: "string \<Rightarrow> string \<Rightarrow> unit io" where
  "save_notebook notebook_file notebook_content =
     io_bind (write_text notebook_file notebook_content) (\<lambda>_.
       print_line ''Lab notebook successfully saved'')"

text \<open>
  The reflection loop over the values \<open>i\<close> of \<open>range(n_notebook_reflections)\<close> that are
  still to come, and the \<open>return osp.exists(notebook_file)\<close> that follows the loop.
  \<open>response\<close> is the response to the first prompt. The match is taken from \<open>response\<close>,
  as in the source. (The source's last \<open>else\<close> branch, for a match that is missing after
  the function has already returned for a missing match, has no counterpart.)
\<close>

fun reflection_loop ::
  "'h env \<Rightarrow> string \<Rightarrow> string \<Rightarrow> string \<Rightarrow> nat list \<Rightarrow> 'h \<Rightarrow> bool io" where
  "reflection_loop env client_model notebook_file response [] msg_history =
     osp_exists notebook_file"
| "reflection_loop env client_model notebook_file response (i # rest) msg_history =
     io_bind (read_text notebook_file) (\<lambda>current_notebook.
     io_bind (llm_call env reflection_prompt client_model notebook_system_message_template
                (Some msg_history)) (\<lambda>(reflection_response, msg_history').
       if contains ''I am done'' reflection_response then
         io_bind (print_line ''LLM indicated it is done with reflections. Exiting reflection loop.'')
           (\<lambda>_. osp_exists notebook_file)
       else
         (case re_search_markdown response of
            None \<Rightarrow> io_return False
          | Some g \<Rightarrow>
              (let reflected_notebook = strip g
               in if reflected_notebook \<noteq> current_notebook then
                    io_bind (save_notebook notebook_file reflected_notebook) (\<lambda>_.
                      reflection_loop env client_model notebook_file response rest msg_history')
                  else
                    io_bind (print_line (''No changes in reflection step '' @ str_of_nat (i + 1) @ ''.''))
                      (\<lambda>_. osp_exists notebook_file)))))"

text \<open>The second part of the \<open>try\<close> block: the first draft, then the reflections.\<close>

definition combined_prompt :: "gathered \<Rightarrow> string" where
  "combined_prompt g =
     notebook_prompt_format (idea_text g) (combined_summaries_str g) (aggregator_code g)
       (str_join '', '' (plot_names g)) (current_notebook g) (plot_descriptions_str g)"

definition write_notebook :: "'h env \<Rightarrow> string \<Rightarrow> string \<Rightarrow> int \<Rightarrow> gathered \<Rightarrow> bool io" where
  "write_notebook env base_folder model n_notebook_reflections g =
     io_bind (io_of (create_client env model)) (\<lambda>client_model.
     io_bind (llm_call env (combined_prompt g) client_model notebook_system_message_template None)
       (\<lambda>(response, msg_history).
       (case re_search_markdown response of
          None \<Rightarrow> io_return False
        | Some g1 \<Rightarrow>
            io_bind (save_notebook (notebook_file_of base_folder) (strip g1)) (\<lambda>_.
              reflection_loop env client_model (notebook_file_of base_folder) response
                [0 ..< nat n_notebook_reflections] msg_history))))"

text \<open>
  The function: the preparation, then the \<open>try\<close> block (\<open>try_block\<close>) with its handler.
  \<open>Inl e\<close> in the result: the exception \<open>e\<close> leaves the function; \<open>Inr b\<close>: the
  function returns \<open>b\<close>.
\<close>

definition try_block :: "'h env \<Rightarrow> string \<Rightarrow> string \<Rightarrow> int \<Rightarrow> bool io" where
  "try_block env base_folder model n_notebook_reflections =
     io_bind (gather_inputs env base_folder)
       (write_notebook env base_folder model n_notebook_reflections)"

definition create_lab_notebook :: "'h env \<Rightarrow> string \<Rightarrow> string \<Rightarrow> int \<Rightarrow> bool io" where
  "create_lab_notebook env base_folder model n_notebook_reflections =
     io_bind (prepare_notebook_folder base_folder) (\<lambda>_.
       io_try
         (try_block env base_folder model n_notebook_reflections)
         (\<lambda>e. io_bind (print_line ''EXCEPTION in create_lab_notebook:'') (\<lambda>_.
              io_bind (print_traceback e) (\<lambda>_.
              io_return False))))"

subsection \<open>Observations\<close>

text \<open>What the properties say about a world: a path is absent, or is a file with a content.\<close>

definition absent :: "world \<Rightarrow> string \<Rightarrow> bool" where
  "absent w p = (\<not> path_exists (root w) p)"

definition holds_text :: "world \<Rightarrow> string \<Rightarrow> string \<Rightarrow> bool" where
  "holds_text w p c = (node_at (root w) p = Inr (File c))"

text \<open>The warning printed for a summary file that is not valid JSON.\<close>

definition json_warning :: "string \<Rightarrow> string \<Rightarrow> printed" where
  "json_warning fname key =
     Line (''Warning: '' @ fname @ '' is not valid JSON. Using empty data for '' @ key @ ''.'')"

text \<open>The world after a request to the language model, and after a printed line.\<close>

definition asked :: "world \<Rightarrow> string \<Rightarrow> world" where
  "asked w prompt = w\<lparr>llm_requests := llm_requests w @ [prompt]\<rparr>"

definition printed_line :: "world \<Rightarrow> string \<Rightarrow> world" where
  "printed_line w s = w\<lparr>stdout := stdout w @ [Line s]\<rparr>"

text \<open>
  The description the first loop of the description block stores for a plot, and the
  condition under which the block raises nothing: the client is created, and every plot
  that exists gets a review.
\<close>

definition plot_description :: "'h env \<Rightarrow> world \<Rightarrow> string \<Rightarrow> string \<Rightarrow> string" where
  "plot_description env w figures_dir f =
     (if absent w (osp_join figures_dir f) then ''No description found''
      else (case generate_vlm_img_review env (osp_join figures_dir f) of
              Inr review_data \<Rightarrow> review_text review_data
            | Inl e \<Rightarrow> ''No description found''))"

definition reviews_succeed :: "'h env \<Rightarrow> world \<Rightarrow> string \<Rightarrow> string list \<Rightarrow> bool" where
  "reviews_succeed env w figures_dir names =
     (\<not> isl (create_vlm_client env ''gpt-4o-2024-05-13'') \<and>
      list_all (\<lambda>f. absent w (osp_join figures_dir f) \<or>
                    \<not> isl (generate_vlm_img_review env (osp_join figures_dir f))) names)"

subsection \<open>Fenced blocks, as the specification speaks of them\<close>

text \<open>
  Stated from the words of the specification, to be compared with the regular expression
  search: a string contains a fenced block when an opening fence is followed, after any
  content, by a closing fence; \<open>inner\<close> is the content of the first such block when the
  opening fence before it is the first opening fence of the string and the closing fence
  after it is the first closing fence after that opening fence.
\<close>

definition has_fenced_block :: "string \<Rightarrow> bool" where
  "has_fenced_block s = (\<exists>pre inner post. s = pre @ ''```markdown'' @ inner @ ''```'' @ post)"

definition first_fenced_block :: "string \<Rightarrow> string \<Rightarrow> bool" where
  "first_fenced_block s inner =
     (\<exists>pre post. s = pre @ ''```markdown'' @ inner @ ''```'' @ post \<and>
        (\<forall>i<length pre. \<not> startswith (drop i s) ''```markdown'') \<and>
        (\<forall>j<length inner. \<not> startswith (drop j (inner @ ''```'' @ post)) ''```''))"

subsection \<open>Example environments and worlds\<close>

text \<open>
  A printer that follows \<open>json.dumps(_, indent=2)\<close> (with its default
  \<open>ensure_ascii\<close>), for the example environments.
\<close>

definition hex_digit :: "nat \<Rightarrow> char" where
  "hex_digit n = (if n < 10 then char_of (48 + n) else char_of (87 + n))"

definition escape_char :: "char \<Rightarrow> string" where
  "escape_char c =
     (let n = (of_char c :: nat)
      in if c = CHR 0x22 then [CHR 0x5C, CHR 0x22]
         else if c = CHR 0x5C then [CHR 0x5C, CHR 0x5C]
         else if c = CHR 0x0A then [CHR 0x5C, CHR ''n'']
         else if c = CHR 0x0D then [CHR 0x5C, CHR ''r'']
         else if c = CHR 0x09 then [CHR 0x5C, CHR ''t'']
         else if c = CHR 0x08 then [CHR 0x5C, CHR ''b'']
         else if c = CHR 0x0C then [CHR 0x5C, CHR ''f'']
         else if n < 32 \<or> 126 < n
           then [CHR 0x5C, CHR ''u'', CHR ''0'', CHR ''0'', hex_digit (n div 16), hex_digit (n mod 16)]
         else [c])"

definition json_string :: "string \<Rightarrow> string" where
  "json_string s = [CHR 0x22] @ concat (map escape_char s) @ [CHR 0x22]"

fun json_dumps_at :: "nat \<Rightarrow> json \<Rightarrow> string" where
  "json_dumps_at l JNull = ''null''"
| "json_dumps_at l (JBool b) = (if b then ''true'' else ''false'')"
| "json_dumps_at l (JNumber t) = t"
| "json_dumps_at l (JString s) = json_string s"
| "json_dumps_at l (JArray xs) =
     (if xs = [] then ''[]''
      else ''['' @ ''\<newline>''
           @ str_join ('','' @ ''\<newline>'')
               (map (\<lambda>x. replicate (2 * (l + 1)) CHR '' '' @ json_dumps_at (l + 1) x) xs)
           @ ''\<newline>'' @ replicate (2 * l) CHR '' '' @ '']'')"
| "json_dumps_at l (JObject kvs) =
     (if kvs = [] then ''{}''
      else ''{'' @ ''\<newline>''
           @ str_join ('','' @ ''\<newline>'')
               (map (\<lambda>kv. replicate (2 * (l + 1)) CHR '' '' @ json_string (fst kv) @ '': ''
                            @ json_dumps_at (l + 1) (snd kv)) kvs)
           @ ''\<newline>'' @ replicate (2 * l) CHR '' '' @ ''}'')"

definition json_dumps_indent2 :: "json \<Rightarrow> string" where
  "json_dumps_indent2 j = json_dumps_at 0 j"

text \<open>
  A project folder \<open>p\<close> with a figures directory, an idea file and a notebook left by an
  earlier run; no folder \<open>q\<close>. The example model answers the first prompt with notebook
  \<open># A\<close> and every reflection prompt with notebook \<open># B\<close>; its message history is the
  number of reflections answered so far. The example parser knows the two texts the
  example files hold: \<open>{}\<close> and a text that is not JSON.
\<close>

definition ex_env :: "nat env" where
  "ex_env =
     \<lparr>json_load = (\<lambda>s. if s = ''{}'' then Inr (JObject []) else Inl JSONDecodeError),
      json_dumps = json_dumps_indent2,
      create_vlm_client = (\<lambda>m. Inr ()),
      generate_vlm_img_review = (\<lambda>p. Inr (Some [(''Img_description'', ''a curve'')])),
      create_client = (\<lambda>m. Inr m),
      get_response_from_llm =
        (\<lambda>prompt m sys h.
           case h of
             None \<Rightarrow> Inr (''Here it is: ```markdown\<newline># A\<newline>``` Done.'', 0)
           | Some k \<Rightarrow> Inr (''```markdown\<newline># B\<newline>```'', Suc k))\<rparr>"

definition ex_world :: world where
  "ex_world =
     \<lparr>root =
        Dir [(''p'',
              Dir [(''figures'', Dir [(''a.PNG'', File ''img''), (''b.txt'', File ''t'')]),
                   (''notebook'', Dir [(''lab_notebook.md'', File ''old'')]),
                   (''idea.md'', File ''idea'')])],
      stdout = [],
      llm_requests = []\<rparr>"

text \<open>The printed dictionary of three empty summaries.\<close>

definition ex_summaries_text :: string where
  "ex_summaries_text =
     ''{\<newline>'' @
     ''  \"BASELINE_SUMMARY\": {},\<newline>'' @
     ''  \"RESEARCH_SUMMARY\": {},\<newline>'' @
     ''  \"ABLATION_SUMMARY\": {}\<newline>'' @
     ''}''"

text \<open>The same environment with a language model client that cannot be created.\<close>

definition ex_env_no_client :: "nat env" where
  "ex_env_no_client = ex_env\<lparr>create_client := (\<lambda>m. Inl (OtherError ''unknown model''))\<rparr>"

text \<open>The example environment with a vision model client that cannot be created.\<close>

definition ex_env_no_vlm :: "nat env" where
  "ex_env_no_vlm = ex_env\<lparr>create_vlm_client := (\<lambda>m. Inl (OtherError ''no API key''))\<rparr>"

text \<open>A language model whose answer holds no fenced block.\<close>

definition ex_env_no_block :: "nat env" where
  "ex_env_no_block =
     ex_env\<lparr>get_response_from_llm := (\<lambda>prompt m sys h. Inr (''I cannot help with that.'', 0))\<rparr>"

text \<open>
  A language model whose first answer holds a carriage return inside the fenced block and
  whose later answers hold neither a block nor the stop phrase; and one that answers
  every reflection prompt with the stop phrase.
\<close>

definition ex_env_cr :: "nat env" where
  "ex_env_cr =
     ex_env\<lparr>get_response_from_llm :=
       (\<lambda>prompt m sys h.
          case h of
            None \<Rightarrow> Inr (''```markdown\<newline>a'' @ [CHR 0x0D] @ ''b```'', 0)
          | Some k \<Rightarrow> Inr (''Looks good to me.'', Suc k))\<rparr>"


text \<open>
  The project folder with two summary files: one that parses and one that does not. The
  third summary file, the idea files and the aggregator script are missing.
\<close>

definition ex_world_logs :: world where
  "ex_world_logs =
     \<lparr>root =
        Dir [(''p'',
              Dir [(''figures'', Dir [(''a.PNG'', File ''img''), (''b.txt'', File ''t'')]),
                   (''logs'',
                    Dir [(''0-run'',
                          Dir [(''baseline_summary.json'', File ''{}''),
                               (''research_summary.json'', File ''not json'')])])])],
      stdout = [],
      llm_requests = []\<rparr>"

text \<open>A project folder that holds nothing but one figure.\<close>

definition ex_world_bare :: world where
  "ex_world_bare =
     \<lparr>root = Dir [(''p'', Dir [(''figures'', Dir [(''a.PNG'', File ''img'')])])],
      stdout = [],
      llm_requests = []\<rparr>"

text \<open>
  The stages of a call on the example world: the world when the \<open>try\<close> block is
  entered (the old notebook is gone, the figures are copied), the inputs gathered there,
  and the world right after the first save, when the first answer of the example model
  has been extracted and written.
\<close>

definition ex_world_prepared :: world where
  "ex_world_prepared =
     \<lparr>root =
        Dir [(''p'',
              Dir [(''figures'', Dir [(''a.PNG'', File ''img''), (''b.txt'', File ''t'')]),
                   (''idea.md'', File ''idea''),
                   (''notebook'',
                    Dir [(''figures'', Dir [(''a.PNG'', File ''img''), (''b.txt'', File ''t'')])])])],
      stdout = [],
      llm_requests = []\<rparr>"

definition ex_gathered :: gathered where
  "ex_gathered =
     \<lparr>idea_text = ''idea'',
      loaded_summaries =
        [(''BASELINE_SUMMARY'', JObject []), (''RESEARCH_SUMMARY'', JObject []),
         (''ABLATION_SUMMARY'', JObject [])],
      combined_summaries_str = ex_summaries_text,
      current_notebook = [],
      plot_names = [''a.PNG''],
      aggregator_code = ''No aggregator script found.'',
      plot_descriptions_str = ''a.PNG: a curve''\<rparr>"

definition ex_first_response :: string where
  "ex_first_response = ''Here it is: ```markdown\<newline># A\<newline>``` Done.''"

definition ex_tree_saved :: "string \<Rightarrow> node" where
  "ex_tree_saved content =
     Dir [(''p'',
           Dir [(''figures'', Dir [(''a.PNG'', File ''img''), (''b.txt'', File ''t'')]),
                (''idea.md'', File ''idea''),
                (''notebook'',
                 Dir [(''figures'', Dir [(''a.PNG'', File ''img''), (''b.txt'', File ''t'')]),
                      (''lab_notebook.md'', File content)])])]"




text \<open>
  The project folder that holds nothing but one figure, when the \<open>try\<close> block is
  entered, and what is gathered there.
\<close>

definition ex_world_bare_prepared :: world where
  "ex_world_bare_prepared =
     \<lparr>root =
        Dir [(''p'',
              Dir [(''figures'', Dir [(''a.PNG'', File ''img'')]),
                   (''notebook'', Dir [(''figures'', Dir [(''a.PNG'', File ''img'')])])])],
      stdout = [],
      llm_requests = []\<rparr>"

definition ex_gathered_bare :: gathered where
  "ex_gathered_bare =
     \<lparr>idea_text = [],
      loaded_summaries =
        [(''BASELINE_SUMMARY'', JObject []), (''RESEARCH_SUMMARY'', JObject []),
         (''ABLATION_SUMMARY'', JObject [])],
      combined_summaries_str = ex_summaries_text,
      current_notebook = [],
      plot_names = [''a.PNG''],
      aggregator_code = ''No aggregator script found.'',
      plot_descriptions_str = ''a.PNG: a curve''\<rparr>"

section \<open>Properties\<close>

subsection \<open>Paths and the directory tree\<close>

lemma split_sep_append:
  "split_sep cur (a @ CHR ''/'' # b) = split_sep cur a @ split_sep [] b"
  by (induction a arbitrary: cur) simp_all


lemma components_snoc_sep: "components (a @ ''/'') = components a @ [[]]"
  using split_sep_append [of "[]" a "[]"] by (simp add: components_def)



lemma next_location_simps [simp]:
  "next_location cur [] = cur" "next_location cur ''.'' = cur"
  "next_location cur ''..'' = butlast cur"
  by (simp_all add: next_location_def)

lemma walk_append:
  "walk t cur (cs @ ds) = (case walk t cur cs of Inl e \<Rightarrow> Inl e | Inr l \<Rightarrow> walk t l ds)"
  by (induction cs arbitrary: cur) (auto split: option.splits node.splits)

lemma stat_at_Directory: "stat_at t q = Some Directory \<longleftrightarrow> (\<exists>es. lookup t q = Some (Dir es))"
  by (auto simp add: stat_at_def split: option.splits node.splits)

lemma walk_step:
  "stat_at t cur = Some Directory \<Longrightarrow>
   walk t cur (c # cs) = walk t (next_location cur c) cs"
  by (auto simp add: stat_at_Directory)

lemma walk_Cons_Inr:
  "walk t cur (c # cs) = Inr l \<Longrightarrow> stat_at t cur = Some Directory"
  by (auto simp add: stat_at_Directory split: option.splits node.splits)

lemma walk_empties: "walk t cur (replicate k []) = Inr l \<Longrightarrow> l = cur"
  by (induction k) (auto split: option.splits node.splits)


lemma walk_mono:
  assumes "\<forall>q. stat_at t q = Some Directory \<longrightarrow> stat_at t' q = Some Directory"
  shows "walk t cur cs = Inr l \<Longrightarrow> walk t' cur cs = Inr l"
proof (induction cs arbitrary: cur)
  case (Cons c cs)
  from walk_Cons_Inr [OF Cons.prems] have d: "stat_at t cur = Some Directory" .
  with assms have d': "stat_at t' cur = Some Directory" by simp
  from Cons.prems have "walk t (next_location cur c) cs = Inr l"
    by (simp only: walk_step [OF d])
  from Cons.IH [OF this] show ?case by (simp only: walk_step [OF d'])
qed simp




lemma split_sep_nonempty: "split_sep cur p \<noteq> []"
  by (induction p arbitrary: cur) auto

lemma resolve_root_dir: "resolve t p = Inr l \<Longrightarrow> stat_at t [] = Some Directory"
proof -
  assume a: "resolve t p = Inr l"
  obtain c cs where c: "components p = c # cs"
    using split_sep_nonempty [of "[]" p] by (cases "components p") (auto simp add: components_def)
  from a have "walk t [] (c # cs) = Inr l" by (auto simp add: resolve_def c split: if_splits)
  then show ?thesis by (rule walk_Cons_Inr)
qed





lemma rstrip_sep_id: "p \<noteq> [] \<Longrightarrow> last p \<noteq> CHR ''/'' \<Longrightarrow> rstrip_sep p = p"
  by (cases p rule: rev_cases) (auto simp add: rstrip_sep_def)













lemma lookup_append:
  "lookup t (p @ q) = (case lookup t p of None \<Rightarrow> None | Some n \<Rightarrow> lookup n q)"
  by (induction t p rule: lookup.induct) (auto split: option.splits)

lemma update_at_below:
  "update_at p f t = Inr t' \<Longrightarrow>
   \<exists>r. f (lookup t p) = Inr r \<and> (\<forall>q. lookup t' (p @ q) = (case r of None \<Rightarrow> None | Some n \<Rightarrow> lookup n q))"
proof (induction p f t arbitrary: t' rule: update_at.induct)
  case (3 x xs f es)
  show ?case
  proof (cases "xs = []")
    case True
    with "3.prems" show ?thesis
      by (auto simp add: AList.update_conv' AList.delete_conv' split: sum.splits option.splits)
  next
    case False
    with "3.prems" obtain n n' where n: "map_of es x = Some n" "update_at xs f n = Inr n'"
      and t': "t' = Dir (AList.update x n' es)"
      by (auto split: option.splits sum.splits)
    from "3.IH" [OF False n] obtain r where
      "f (lookup n xs) = Inr r" "\<forall>q. lookup n' (xs @ q) = (case r of None \<Rightarrow> None | Some n \<Rightarrow> lookup n q)"
      by blast
    then show ?thesis using n t' by (auto simp add: AList.update_conv')
  qed
qed simp_all

lemma update_at_other:
  "update_at p f t = Inr t' \<Longrightarrow> \<not> prefix p q \<Longrightarrow> \<not> prefix q p \<Longrightarrow> lookup t' q = lookup t q"
proof (induction p f t arbitrary: t' q rule: update_at.induct)
  case (3 x xs f es)
  from "3.prems" obtain y ys where q: "q = y # ys" by (cases q) auto
  show ?case
  proof (cases "y = x")
    case True
    with "3.prems" q have rel: "\<not> prefix xs ys" "\<not> prefix ys xs" by auto
    then have ne: "xs \<noteq> []" by auto
    with "3.prems" obtain n n' where n: "map_of es x = Some n" "update_at xs f n = Inr n'"
      and t': "t' = Dir (AList.update x n' es)"
      by (auto split: option.splits sum.splits)
    from "3.IH" [OF ne n rel] show ?thesis using q True n t'
      by (simp add: AList.update_conv')
  next
    case False
    with "3.prems" q show ?thesis
      by (auto simp add: AList.update_conv' AList.delete_conv' split: sum.splits option.splits if_splits)
  qed
qed simp_all

lemma update_at_above:
  "update_at p f t = Inr t' \<Longrightarrow> strict_prefix q p \<Longrightarrow>
   (\<exists>es. lookup t q = Some (Dir es)) \<and> (\<exists>es. lookup t' q = Some (Dir es))"
proof (induction p f t arbitrary: t' q rule: update_at.induct)
  case (3 x xs f es)
  show ?case
  proof (cases q)
    case Nil
    with "3.prems" show ?thesis by (auto split: sum.splits option.splits if_splits)
  next
    case (Cons y ys)
    with "3.prems" have y: "y = x" and rel: "strict_prefix ys xs" by (auto simp add: strict_prefix_def)
    then have ne: "xs \<noteq> []" by auto
    with "3.prems" obtain n n' where n: "map_of es x = Some n" "update_at xs f n = Inr n'"
      and t': "t' = Dir (AList.update x n' es)"
      by (auto split: option.splits sum.splits)
    from "3.IH" [OF ne n rel] show ?thesis using Cons y n t'
      by (simp add: AList.update_conv')
  qed
qed simp_all

lemma update_at_frame:
  assumes "update_at p f t = Inr t'" and "\<not> prefix p q"
  shows "stat_at t' q = stat_at t q"
proof (cases "prefix q p")
  case True
  with assms(2) have "strict_prefix q p" by (auto simp add: strict_prefix_def)
  from update_at_above [OF assms(1) this] show ?thesis by (auto simp add: stat_at_def)
next
  case False
  from update_at_other [OF assms(1,2) False] show ?thesis by (simp add: stat_at_def)
qed






lemma write_at_lookup:
  assumes "write_at p c t = Inr t'"
  shows "lookup t' p = Some (File c)"
proof -
  from update_at_below [OF assms [unfolded write_at_def]] obtain r where
    r: "(case lookup t p of Some (Dir es) \<Rightarrow> Inl IsADirectoryError | _ \<Rightarrow> Inr (Some (File c))) = Inr r"
    and l: "\<forall>q. lookup t' (p @ q) = (case r of None \<Rightarrow> None | Some n \<Rightarrow> lookup n q)"
    by blast
  from r have "r = Some (File c)" by (auto split: option.splits node.splits)
  with l [rule_format, of "[]"] show ?thesis by simp
qed

lemma write_at_frame:
  assumes "write_at p c t = Inr t'" and "q \<noteq> p"
  shows "stat_at t' q = stat_at t q"
proof -
  note up = assms(1) [unfolded write_at_def]
  from update_at_below [OF up] obtain r where
    r: "(case lookup t p of Some (Dir es) \<Rightarrow> Inl IsADirectoryError | _ \<Rightarrow> Inr (Some (File c))) = Inr r"
    and l: "\<forall>q. lookup t' (p @ q) = (case r of None \<Rightarrow> None | Some n \<Rightarrow> lookup n q)"
    by blast
  from r have r': "r = Some (File c)" and old: "lookup t p = None \<or> (\<exists>c0. lookup t p = Some (File c0))"
    by (auto split: option.splits node.splits)
  show ?thesis
  proof (cases "prefix p q")
    case True
    with assms(2) obtain s where q: "q = p @ s" "s \<noteq> []"
      by (auto simp add: prefix_def)
    then obtain x xs where s: "s = x # xs" by (cases s) auto
    from l [rule_format, of s] r' s have "lookup t' q = None" by (simp add: q)
    moreover from old s have "lookup t q = None" by (auto simp add: q lookup_append)
    ultimately show ?thesis by (simp add: stat_at_def)
  next
    case False
    from update_at_frame [OF up False] show ?thesis .
  qed
qed

lemma write_at_not_dir:
  assumes "write_at p c t = Inr t'"
  shows "stat_at t p \<noteq> Some Directory"
proof -
  from update_at_below [OF assms [unfolded write_at_def]] obtain r where
    "(case lookup t p of Some (Dir es) \<Rightarrow> Inl IsADirectoryError | _ \<Rightarrow> Inr (Some (File c))) = Inr r"
    by blast
  then show ?thesis by (auto simp add: stat_at_def split: option.splits node.splits)
qed

lemma write_at_same:
  "lookup t p = Some (File c) \<Longrightarrow> p \<noteq> [] \<Longrightarrow> write_at p c t = Inr t"
  unfolding write_at_def
proof (induction t p rule: lookup.induct)
  case (3 es x xs)
  then obtain n where n: "map_of es x = Some n" "lookup n xs = Some (File c)"
    by (auto split: option.splits)
  show ?case
  proof (cases "xs = []")
    case True
    with n show ?thesis by (simp add: AList.update_triv)
  next
    case False
    from "3.IH" [OF n(1) n(2) False] n False show ?thesis
      by (simp add: AList.update_triv)
  qed
qed simp_all

text \<open>Writing a file through a path.\<close>

lemma write_file_Inr:
  assumes "write_file p c t = Inr t'"
  obtains loc where "resolve t p = Inr loc" "write_at loc c t = Inr t'"
  using assms by (auto simp add: write_file_def split: sum.splits if_splits)

lemma write_file_Inl:
  "resolve t p = Inl e \<Longrightarrow> \<exists>e'. write_file p c t = Inl e'"
  by (auto simp add: write_file_def split: sum.splits)

lemma write_file_resolve:
  assumes "write_file p c t = Inr t'"
  shows "resolve t' p = resolve t p"
proof -
  from assms obtain loc where loc: "resolve t p = Inr loc" "write_at loc c t = Inr t'"
    by (rule write_file_Inr)
  have keep: "\<forall>q. stat_at t q = Some Directory \<longrightarrow> stat_at t' q = Some Directory"
    using write_at_frame [OF loc(2)] write_at_not_dir [OF loc(2)] by metis
  from loc(1) have "walk t [] (components p) = Inr loc" "p \<noteq> []"
    by (auto simp add: resolve_def split: if_splits)
  with walk_mono [OF keep] loc(1) show ?thesis by (simp add: resolve_def)
qed

lemma write_file_node:
  assumes "write_file p c t = Inr t'"
  shows "node_at t' p = Inr (File c)"
proof -
  from assms obtain loc where loc: "resolve t p = Inr loc" "write_at loc c t = Inr t'"
    by (rule write_file_Inr)
  from write_file_resolve [OF assms] loc(1) write_at_lookup [OF loc(2)]
  show ?thesis by (simp add: node_at_def)
qed

lemma write_file_frame:
  assumes "write_file p c t = Inr t'" and "Inr q \<noteq> resolve t p"
  shows "stat_at t' q = stat_at t q"
proof -
  from assms(1) obtain loc where loc: "resolve t p = Inr loc" "write_at loc c t = Inr t'"
    by (rule write_file_Inr)
  with assms(2) have "q \<noteq> loc" by auto
  from write_at_frame [OF loc(2) this] show ?thesis .
qed

lemma node_at_File:
  assumes "node_at t p = Inr (File c)"
  obtains loc where "resolve t p = Inr loc" "lookup t loc = Some (File c)" "loc \<noteq> []"
    "rstrip_sep p = p"
proof -
  from assms obtain loc where loc: "resolve t p = Inr loc" "lookup t loc = Some (File c)"
    by (auto simp add: node_at_def split: sum.splits option.splits)
  from resolve_root_dir [OF loc(1)] loc(2) have ne: "loc \<noteq> []"
    by (auto simp add: stat_at_def)
  from loc(1) have p: "p \<noteq> []" "walk t [] (components p) = Inr loc"
    by (auto simp add: resolve_def split: if_splits)
  have "last p \<noteq> CHR ''/''"
  proof
    assume "last p = CHR ''/''"
    with p(1) have "p = butlast p @ ''/''" by (metis append_butlast_last_id)
    then have "components p = components (butlast p) @ [[]]"
      using components_snoc_sep [of "butlast p"] by simp
    with p(2) obtain l where "walk t l [[]] = Inr loc"
      by (auto simp add: walk_append split: sum.splits)
    from walk_Cons_Inr [OF this] walk_empties [of t l 1 loc] this loc(2)
    show False by (simp add: stat_at_def)
  qed
  with p(1) have "rstrip_sep p = p" by (rule rstrip_sep_id)
  with loc ne show ?thesis by (rule that)
qed

lemma write_file_same:
  assumes "node_at t p = Inr (File c)"
  shows "write_file p c t = Inr t"
  using assms
proof (rule node_at_File)
  fix loc
  assume "resolve t p = Inr loc" "lookup t loc = Some (File c)" "loc \<noteq> []" "rstrip_sep p = p"
  with write_at_same [of t loc c] show ?thesis by (simp add: write_file_def)
qed

subsection \<open>Computations\<close>

lemma io_bind_Inr_iff:
  "io_bind m f w = (Inr y, w') \<longleftrightarrow> (\<exists>x w1. m w = (Inr x, w1) \<and> f x w1 = (Inr y, w'))"
  by (auto simp add: io_bind_def split: prod.splits sum.splits)

lemma io_bindE:
  assumes "io_bind m f w = (r, w')"
  obtains (raised) e where "m w = (Inl e, w')" "r = Inl e"
        | (continued) x w1 where "m w = (Inr x, w1)" "f x w1 = (r, w')"
  using assms by (auto simp add: io_bind_def split: prod.splits sum.splits)

lemma io_of_result: "io_of x w = (r, w') \<Longrightarrow> r = x \<and> w' = w"
  by (simp add: io_of_def)

lemma io_tree_Inr: "io_tree f w = (Inr u, w') \<longleftrightarrow> (\<exists>t. f (root w) = Inr t \<and> w' = w\<lparr>root := t\<rparr>)"
  by (auto simp add: io_tree_def split: sum.splits)

lemma osp_exists_absent: "osp_exists p w = (Inr (\<not> absent w p), w)"
  by (simp add: osp_exists_def absent_def)

lemma osp_exists_result: "osp_exists p w = (r, w') \<Longrightarrow> r = Inr (\<not> absent w p) \<and> w' = w"
  by (auto simp add: osp_exists_absent)

lemma read_text_same: "read_text p w = (r, w') \<Longrightarrow> w' = w"
  by (auto simp add: read_text_def split: sum.splits node.splits)

lemma read_text_holds: "holds_text w p c \<Longrightarrow> read_text p w = (Inr (universal_newlines c), w)"
  by (simp add: read_text_def holds_text_def)

lemma universal_newlines_id: "CHR 0x0D \<notin> set c \<Longrightarrow> universal_newlines c = c"
  by (induction c rule: universal_newlines.induct) auto


lemma llm_call_result:
  "llm_call env prompt cm sys h w = (r, w') \<Longrightarrow>
   r = get_response_from_llm env prompt cm sys h \<and> w' = w\<lparr>llm_requests := llm_requests w @ [prompt]\<rparr>"
  by (auto simp add: llm_call_def)

lemma print_line_result:
  "print_line s w = (r, w') \<Longrightarrow> r = Inr () \<and> w' = w\<lparr>stdout := stdout w @ [Line s]\<rparr>"
  by (auto simp add: print_line_def)

lemma write_text_result:
  "write_text p c w = (r, w') \<Longrightarrow>
   (\<exists>t. write_file p c (root w) = Inr t \<and> r = Inr () \<and> w' = w\<lparr>root := t\<rparr>)
   \<or> (\<exists>e. write_file p c (root w) = Inl e \<and> r = Inl e \<and> w' = w)"
  by (auto simp add: write_text_def io_tree_def split: sum.splits)

lemma save_notebook_result:
  assumes "save_notebook p c w = (r, w')"
  shows "(\<exists>t. write_file p c (root w) = Inr t \<and> r = Inr () \<and>
              w' = w\<lparr>root := t, stdout := stdout w @ [Line ''Lab notebook successfully saved'']\<rparr>)
         \<or> (\<exists>e. write_file p c (root w) = Inl e \<and> r = Inl e \<and> w' = w)"
  using assms unfolding save_notebook_def
  by (elim io_bindE) (auto dest!: write_text_result print_line_result)

lemma asked_simps [simp]:
  "root (asked w s) = root w" "stdout (asked w s) = stdout w"
  "llm_requests (asked w s) = llm_requests w @ [s]"
  by (simp_all add: asked_def)

lemma printed_line_simps [simp]:
  "root (printed_line w s) = root w" "stdout (printed_line w s) = stdout w @ [Line s]"
  "llm_requests (printed_line w s) = llm_requests w"
  by (simp_all add: printed_line_def)

lemma absent_asked [simp]: "absent (asked w s) p = absent w p"
  by (simp add: absent_def)

lemma absent_printed_line [simp]: "absent (printed_line w s) p = absent w p"
  by (simp add: absent_def)

subsection \<open>The statements before the try block, and the shape of a call\<close>

lemma io_tree_quiet:
  "io_tree f w = (r, w') \<Longrightarrow> stdout w' = stdout w \<and> llm_requests w' = llm_requests w"
  by (auto simp add: io_tree_def split: sum.splits)

lemma io_tree_steps_quiet:
  "io_tree_steps f w = (r, w') \<Longrightarrow> stdout w' = stdout w \<and> llm_requests w' = llm_requests w"
  by (auto simp add: io_tree_steps_def split: prod.splits)

lemma prepare_notebook_folder_quiet:
  assumes "prepare_notebook_folder base w = (r, w1)"
  shows "stdout w1 = stdout w \<and> llm_requests w1 = llm_requests w"
  using assms unfolding prepare_notebook_folder_def Let_def
  by (elim io_bindE)
     (auto simp add: shutil_rmtree_def os_makedirs_def shutil_copytree_def io_return_def
        dest!: osp_exists_result io_tree_quiet io_tree_steps_quiet split: if_splits)






lemma create_lab_notebook_result:
  "create_lab_notebook env base_folder model n w =
     (case prepare_notebook_folder base_folder w of
        (Inl e, w1) \<Rightarrow> (Inl e, w1)
      | (Inr u, w1) \<Rightarrow>
          (case try_block env base_folder model n w1 of
             (Inl e, w2) \<Rightarrow>
               (Inr False,
                w2\<lparr>stdout := stdout w2 @ [Line ''EXCEPTION in create_lab_notebook:'', Traceback e]\<rparr>)
           | (Inr b, w2) \<Rightarrow> (Inr b, w2)))"
  by (simp add: create_lab_notebook_def io_bind_def io_try_def io_return_def print_line_def
      print_traceback_def split: prod.splits sum.splits)

subsection \<open>Loading the summaries\<close>

lemma load_summary_absent:
  "absent w (osp_join base fname) \<Longrightarrow> load_summary env base fname key w = (Inr (JObject []), w)"
  by (simp add: load_summary_def Let_def absent_def io_bind_def osp_exists_def io_return_def)

lemma load_summary_invalid:
  "holds_text w (osp_join base fname) c \<Longrightarrow> json_load env (universal_newlines c) = Inl JSONDecodeError \<Longrightarrow>
   load_summary env base fname key w =
     (Inr (JObject []), w\<lparr>stdout := stdout w @ [json_warning fname key]\<rparr>)"
  by (simp add: load_summary_def Let_def holds_text_def io_bind_def osp_exists_def io_return_def
      io_try_json_def read_text_def io_of_def print_line_def json_warning_def path_exists_def)

lemma load_summary_frame:
  "load_summary env base fname key w = (r, w') \<Longrightarrow>
   root w' = root w \<and> llm_requests w' = llm_requests w \<and> prefix (stdout w) (stdout w')"
  by (auto simp add: load_summary_def Let_def io_bind_def osp_exists_def io_return_def
      io_try_json_def read_text_def io_of_def print_line_def
      split: if_splits node.splits sum.splits prod.splits)

lemma load_summaries_frame:
  "load_summaries env base files acc w = (r, w') \<Longrightarrow>
   root w' = root w \<and> llm_requests w' = llm_requests w \<and> prefix (stdout w) (stdout w')"
proof (induction files arbitrary: acc w)
  case Nil
  then show ?case by (simp add: io_return_def)
next
  case (Cons a files)
  obtain fname key where a: "a = (fname, key)" by (cases a)
  obtain r1 w1 where s: "load_summary env base fname key w = (r1, w1)" by (cases "load_summary env base fname key w")
  note f1 = load_summary_frame [OF s]
  show ?case
  proof (cases r1)
    case (Inl e)
    with Cons.prems a s f1 show ?thesis by (simp add: io_bind_def)
  next
    case (Inr v)
    with Cons.prems a s have "load_summaries env base files (AList.update key v acc) w1 = (r, w')"
      by (simp add: io_bind_def)
    from Cons.IH [OF this] f1 show ?thesis by (auto intro: prefix_order.trans)
  qed
qed

lemma load_summaries_value:
  assumes "load_summaries env base files acc w = (Inr loaded, w')"
    and "(fname, key) \<in> set files" and "distinct (map snd files)"
  shows "\<exists>w1 w2 v. load_summary env base fname key w1 = (Inr v, w2) \<and> root w1 = root w
            \<and> prefix (stdout w2) (stdout w') \<and> map_of loaded key = Some v"
  using assms
proof (induction files arbitrary: acc w)
  case Nil
  then show ?case by simp
next
  case (Cons a files)
  obtain f k where a: "a = (f, k)" by (cases a)
  from Cons.prems(1) a obtain v w1 where
    s: "load_summary env base f k w = (Inr v, w1)"
    and rest: "load_summaries env base files (AList.update k v acc) w1 = (Inr loaded, w')"
    by (auto simp add: io_bind_Inr_iff)
  note f1 = load_summary_frame [OF s]
  note f2 = load_summaries_frame [OF rest]
  show ?case
  proof (cases "(fname, key) \<in> set files")
    case True
    from Cons.IH [OF rest True] Cons.prems(3) f1 show ?thesis by auto
  next
    case False
    with Cons.prems(2) a have eq: "f = fname" "k = key" by auto
    from Cons.prems(3) a eq have notin: "key \<notin> snd ` set files" by auto
    have keep: "\<And>acc w r w'. load_summaries env base files acc w = (Inr r, w') \<Longrightarrow>
                 key \<notin> snd ` set files \<Longrightarrow> map_of r key = map_of acc key"
    proof -
      fix acc w r w'
      show "load_summaries env base files acc w = (Inr r, w') \<Longrightarrow>
                 key \<notin> snd ` set files \<Longrightarrow> map_of r key = map_of acc key"
      proof (induction files arbitrary: acc w)
        case Nil
        then show ?case by (simp add: io_return_def)
      next
        case (Cons b files)
        obtain f' k' where b: "b = (f', k')" by (cases b)
        from Cons.prems b obtain v' w1' where
          "load_summaries env base files (AList.update k' v' acc) w1' = (Inr r, w')" "k' \<noteq> key"
          by (auto simp add: io_bind_Inr_iff)
        with Cons.IH [OF this(1)] Cons.prems(2) show ?case
          by (simp add: AList.update_conv')
      qed
    qed
    from keep [OF rest notin] have "map_of loaded key = Some v"
      using eq by (simp add: AList.update_conv')
    with s eq f2 show ?thesis by blast
  qed
qed

lemma load_summaries_all_absent:
  assumes "\<forall>(fname, key) \<in> set summary_files. absent w (osp_join base fname)"
  shows "load_summaries env base summary_files [] w =
           (Inr [(''BASELINE_SUMMARY'', JObject []), (''RESEARCH_SUMMARY'', JObject []),
                 (''ABLATION_SUMMARY'', JObject [])], w)"
  using assms
  by (simp add: summary_files_def io_bind_def load_summary_absent io_return_def)

subsection \<open>Gathering the inputs\<close>

lemma load_idea_text_same: "load_idea_text base w = (r, w') \<Longrightarrow> w' = w"
  by (auto simp add: load_idea_text_def io_bind_def osp_exists_def read_text_def io_return_def
      split: if_splits sum.splits node.splits)

lemma load_idea_text_absent:
  "absent w (osp_join base ''research_idea.md'') \<Longrightarrow> absent w (osp_join base ''idea.md'') \<Longrightarrow>
   load_idea_text base w = (Inr [], w)"
  by (simp add: load_idea_text_def io_bind_def osp_exists_absent io_return_def)

lemma load_current_notebook_same: "load_current_notebook p w = (r, w') \<Longrightarrow> w' = w"
  by (auto simp add: load_current_notebook_def io_bind_def osp_exists_def read_text_def io_return_def
      split: if_splits sum.splits node.splits)

lemma load_current_notebook_absent:
  "absent w p \<Longrightarrow> load_current_notebook p w = (Inr [], w)"
  by (simp add: load_current_notebook_def io_bind_def osp_exists_absent io_return_def)

lemma gather_plot_names_same: "gather_plot_names p w = (r, w') \<Longrightarrow> w' = w"
  by (auto simp add: gather_plot_names_def io_bind_def osp_exists_def os_listdir_def io_return_def
      split: if_splits sum.splits node.splits)

lemma gather_plot_names_dir:
  "node_at (root w) p = Inr (Dir es) \<Longrightarrow>
   gather_plot_names p w = (Inr (filter (\<lambda>fplot. endswith (str_lower fplot) ''.png'') (map fst es)), w)"
  by (simp add: gather_plot_names_def io_bind_def osp_exists_def os_listdir_def io_return_def
      path_exists_def)

lemma load_aggregator_code_same: "load_aggregator_code base w = (r, w') \<Longrightarrow> w' = w"
  by (auto simp add: load_aggregator_code_def io_bind_def osp_exists_def read_text_def io_return_def
      split: if_splits sum.splits node.splits)

lemma load_aggregator_code_absent:
  "absent w (osp_join base ''auto_plot_aggregator.py'') \<Longrightarrow>
   load_aggregator_code base w = (Inr ''No aggregator script found.'', w)"
  by (simp add: load_aggregator_code_def io_bind_def osp_exists_absent io_return_def)

lemma review_plots_same: "review_plots env fd names acc w = (r, w') \<Longrightarrow> w' = w"
proof (induction names arbitrary: acc)
  case Nil
  then show ?case by (simp add: io_return_def)
next
  case (Cons pf rest)
  then show ?case
    by (auto simp add: Let_def io_bind_def osp_exists_def io_of_def split: if_splits sum.splits)
qed

lemma review_plots_ok:
  assumes "list_all (\<lambda>f. absent w (osp_join fd f) \<or> \<not> isl (generate_vlm_img_review env (osp_join fd f))) names"
  shows "\<exists>dm. review_plots env fd names acc w = (Inr dm, w) \<and>
           (\<forall>f. map_of dm f =
                  (if f \<in> set names \<and> \<not> absent w (osp_join fd f)
                   then Some (plot_description env w fd f) else map_of acc f))"
  using assms
proof (induction names arbitrary: acc)
  case Nil
  then show ?case by (simp add: io_return_def)
next
  case (Cons pf rest)
  then have rest: "list_all (\<lambda>f. absent w (osp_join fd f) \<or> \<not> isl (generate_vlm_img_review env (osp_join fd f))) rest"
    by simp
  show ?case
  proof (cases "absent w (osp_join fd pf)")
    case True
    from Cons.IH [OF rest, of acc] obtain dm where
      dm: "review_plots env fd rest acc w = (Inr dm, w)"
          "\<forall>f. map_of dm f = (if f \<in> set rest \<and> \<not> absent w (osp_join fd f)
                   then Some (plot_description env w fd f) else map_of acc f)"
      by blast
    from True dm(1) have "review_plots env fd (pf # rest) acc w = (Inr dm, w)"
      by (simp add: Let_def io_bind_def osp_exists_absent)
    with dm(2) True show ?thesis by auto
  next
    case False
    with Cons.prems obtain rd where rd: "generate_vlm_img_review env (osp_join fd pf) = Inr rd"
      by (cases "generate_vlm_img_review env (osp_join fd pf)") auto
    from Cons.IH [OF rest, of "AList.update pf (review_text rd) acc"] obtain dm where
      dm: "review_plots env fd rest (AList.update pf (review_text rd) acc) w = (Inr dm, w)"
          "\<forall>f. map_of dm f = (if f \<in> set rest \<and> \<not> absent w (osp_join fd f)
                   then Some (plot_description env w fd f)
                   else map_of (AList.update pf (review_text rd) acc) f)"
      by blast
    from False rd dm(1) have "review_plots env fd (pf # rest) acc w = (Inr dm, w)"
      by (simp add: Let_def io_bind_def osp_exists_absent io_of_def)
    moreover have "plot_description env w fd pf = review_text rd"
      using False rd by (simp add: plot_description_def)
    ultimately show ?thesis using dm(2) False
      by (auto simp add: AList.update_conv')
  qed
qed

lemma review_plots_raises:
  assumes "\<not> list_all (\<lambda>f. absent w (osp_join fd f) \<or> \<not> isl (generate_vlm_img_review env (osp_join fd f))) names"
  shows "\<exists>e. review_plots env fd names acc w = (Inl e, w)"
  using assms
proof (induction names arbitrary: acc)
  case Nil
  then show ?case by simp
next
  case (Cons pf rest)
  show ?case
  proof (cases "absent w (osp_join fd pf)")
    case True
    with Cons.prems have "\<not> list_all (\<lambda>f. absent w (osp_join fd f) \<or> \<not> isl (generate_vlm_img_review env (osp_join fd f))) rest"
      by simp
    from Cons.IH [OF this, of acc] True show ?thesis
      by (simp add: Let_def io_bind_def osp_exists_absent)
  next
    case False
    show ?thesis
    proof (cases "generate_vlm_img_review env (osp_join fd pf)")
      case (Inl e)
      with False show ?thesis
        by (simp add: Let_def io_bind_def osp_exists_absent io_of_def)
    next
      case (Inr rd)
      with Cons.prems have "\<not> list_all (\<lambda>f. absent w (osp_join fd f) \<or> \<not> isl (generate_vlm_img_review env (osp_join fd f))) rest"
        by simp
      from Cons.IH [OF this, of "AList.update pf (review_text rd) acc"] False Inr show ?thesis
        by (simp add: Let_def io_bind_def osp_exists_absent io_of_def)
    qed
  qed
qed

lemma describe_plots_ok:
  assumes "reviews_succeed env w fd names"
  shows "describe_plots env fd names w =
           (Inr (str_join ''\<newline>'' (map (\<lambda>f. f @ '': '' @ plot_description env w fd f) names)), w)"
proof -
  from assms have c: "create_vlm_client env ''gpt-4o-2024-05-13'' = Inr ()"
    by (cases "create_vlm_client env ''gpt-4o-2024-05-13''") (auto simp add: reviews_succeed_def)
  from assms have "list_all (\<lambda>f. absent w (osp_join fd f) \<or> \<not> isl (generate_vlm_img_review env (osp_join fd f))) names"
    by (simp add: reviews_succeed_def)
  from review_plots_ok [OF this, of "[]"] obtain dm where
    dm: "review_plots env fd names [] w = (Inr dm, w)"
        "\<forall>f. map_of dm f = (if f \<in> set names \<and> \<not> absent w (osp_join fd f)
                   then Some (plot_description env w fd f) else None)"
    by auto
  have "plot_description_lines names dm = map (\<lambda>f. f @ '': '' @ plot_description env w fd f) names"
    unfolding plot_description_lines_def
    by (rule map_cong) (auto simp add: dm(2) plot_description_def)
  with c dm(1) show ?thesis
    by (simp add: describe_plots_def io_try_def io_bind_def io_of_def io_return_def)
qed

lemma describe_plots_failed:
  assumes "\<not> reviews_succeed env w fd names"
  shows "\<exists>e. describe_plots env fd names w =
           (Inr ''No descriptions available.'',
            w\<lparr>stdout := stdout w @ [Line ''EXCEPTION in VLM figure description generation:'',
                                     Traceback e]\<rparr>)"
proof (cases "create_vlm_client env ''gpt-4o-2024-05-13''")
  case (Inl e)
  then show ?thesis
    by (intro exI [of _ e])
       (simp add: describe_plots_def io_try_def io_bind_def io_of_def io_return_def
        print_line_def print_traceback_def)
next
  case (Inr u)
  with assms have "\<not> list_all (\<lambda>f. absent w (osp_join fd f) \<or> \<not> isl (generate_vlm_img_review env (osp_join fd f))) names"
    by (simp add: reviews_succeed_def)
  from review_plots_raises [OF this, of "[]"] obtain e where
    "review_plots env fd names [] w = (Inl e, w)" by blast
  with Inr show ?thesis
    by (intro exI [of _ e])
       (simp add: describe_plots_def io_try_def io_bind_def io_of_def io_return_def
        print_line_def print_traceback_def)
qed

lemma describe_plots_frame:
  "describe_plots env fd names w = (r, w') \<Longrightarrow>
   (\<exists>s. r = Inr s) \<and> root w' = root w \<and> llm_requests w' = llm_requests w"
  using describe_plots_ok [of env w fd names] describe_plots_failed [of env w fd names]
  by (cases "reviews_succeed env w fd names") auto

lemma gather_inputs_Inr:
  assumes "gather_inputs env base w = (Inr g, w')"
  shows "\<exists>w1. load_idea_text base w = (Inr (idea_text g), w) \<and>
           load_summaries env base summary_files [] w = (Inr (loaded_summaries g), w1) \<and>
           load_current_notebook (notebook_file_of base) w1 = (Inr (current_notebook g), w1) \<and>
           gather_plot_names (osp_join base ''figures'') w1 = (Inr (plot_names g), w1) \<and>
           load_aggregator_code base w1 = (Inr (aggregator_code g), w1) \<and>
           describe_plots env (osp_join base ''figures'') (plot_names g) w1
             = (Inr (plot_descriptions_str g), w') \<and>
           combined_summaries_str g = json_dumps env (JObject (loaded_summaries g)) \<and>
           root w1 = root w"
proof -
  from assms obtain idea w0 loaded w1 current w2 names w3 aggregator w4 descriptions where
    s: "load_idea_text base w = (Inr idea, w0)"
       "load_summaries env base summary_files [] w0 = (Inr loaded, w1)"
       "load_current_notebook (notebook_file_of base) w1 = (Inr current, w2)"
       "gather_plot_names (osp_join base ''figures'') w2 = (Inr names, w3)"
       "load_aggregator_code base w3 = (Inr aggregator, w4)"
       "describe_plots env (osp_join base ''figures'') names w4 = (Inr descriptions, w')"
    and g: "g = \<lparr>idea_text = idea, loaded_summaries = loaded,
                 combined_summaries_str = json_dumps env (JObject loaded),
                 current_notebook = current, plot_names = names,
                 aggregator_code = aggregator, plot_descriptions_str = descriptions\<rparr>"
    unfolding gather_inputs_def io_bind_Inr_iff io_return_def by auto
  from s have "w0 = w" "w2 = w1" "w3 = w2" "w4 = w3"
    by (auto dest: load_idea_text_same load_current_notebook_same gather_plot_names_same
        load_aggregator_code_same)
  with s g load_summaries_frame [OF s(2)] show ?thesis by auto
qed

lemma gather_inputs_frame:
  assumes "gather_inputs env base w = (r, w')"
  shows "root w' = root w \<and> llm_requests w' = llm_requests w"
  using assms unfolding gather_inputs_def
  by (elim io_bindE)
     (auto dest!: load_idea_text_same load_summaries_frame load_current_notebook_same
        gather_plot_names_same load_aggregator_code_same describe_plots_frame
        simp add: io_return_def)

subsection \<open>One pass of the reflection loop\<close>

lemma reflection_loop_Cons_cases:
  assumes "reflection_loop env cm p resp (i # rest) h w = (r, w')"
  obtains
    (read_failed) e where
      "read_text p w = (Inl e, w)" "r = Inl e" "w' = w"
  | (llm_failed) cur e where
      "read_text p w = (Inr cur, w)"
      "get_response_from_llm env reflection_prompt cm notebook_system_message_template (Some h) = Inl e"
      "r = Inl e" "w' = asked w reflection_prompt"
  | (sentinel) cur rr h' where
      "read_text p w = (Inr cur, w)"
      "get_response_from_llm env reflection_prompt cm notebook_system_message_template (Some h) = Inr (rr, h')"
      "contains ''I am done'' rr"
      "r = Inr (\<not> absent w p)"
      "w' = printed_line (asked w reflection_prompt)
              ''LLM indicated it is done with reflections. Exiting reflection loop.''"
  | (no_match) cur rr h' where
      "read_text p w = (Inr cur, w)"
      "get_response_from_llm env reflection_prompt cm notebook_system_message_template (Some h) = Inr (rr, h')"
      "\<not> contains ''I am done'' rr" "re_search_markdown resp = None"
      "r = Inr False" "w' = asked w reflection_prompt"
  | (unchanged) cur rr h' g where
      "read_text p w = (Inr cur, w)"
      "get_response_from_llm env reflection_prompt cm notebook_system_message_template (Some h) = Inr (rr, h')"
      "\<not> contains ''I am done'' rr" "re_search_markdown resp = Some g" "strip g = cur"
      "r = Inr (\<not> absent w p)"
      "w' = printed_line (asked w reflection_prompt)
              (''No changes in reflection step '' @ str_of_nat (i + 1) @ ''.'')"
  | (save_failed) cur rr h' g e where
      "read_text p w = (Inr cur, w)"
      "get_response_from_llm env reflection_prompt cm notebook_system_message_template (Some h) = Inr (rr, h')"
      "\<not> contains ''I am done'' rr" "re_search_markdown resp = Some g" "strip g \<noteq> cur"
      "write_file p (strip g) (root w) = Inl e"
      "r = Inl e" "w' = asked w reflection_prompt"
  | (saved) cur rr h' g t where
      "read_text p w = (Inr cur, w)"
      "get_response_from_llm env reflection_prompt cm notebook_system_message_template (Some h) = Inr (rr, h')"
      "\<not> contains ''I am done'' rr" "re_search_markdown resp = Some g" "strip g \<noteq> cur"
      "write_file p (strip g) (root w) = Inr t"
      "reflection_loop env cm p resp rest h'
         (printed_line ((asked w reflection_prompt)\<lparr>root := t\<rparr>) ''Lab notebook successfully saved'')
         = (r, w')"
proof -
  from assms have run:
    "io_bind (read_text p) (\<lambda>current_notebook.
     io_bind (llm_call env reflection_prompt cm notebook_system_message_template (Some h))
       (\<lambda>(reflection_response, msg_history').
       if contains ''I am done'' reflection_response then
         io_bind (print_line ''LLM indicated it is done with reflections. Exiting reflection loop.'')
           (\<lambda>_. osp_exists p)
       else
         (case re_search_markdown resp of
            None \<Rightarrow> io_return False
          | Some g \<Rightarrow>
              (let reflected_notebook = strip g
               in if reflected_notebook \<noteq> current_notebook then
                    io_bind (save_notebook p reflected_notebook) (\<lambda>_.
                      reflection_loop env cm p resp rest msg_history')
                  else
                    io_bind (print_line (''No changes in reflection step '' @ str_of_nat (i + 1) @ ''.''))
                      (\<lambda>_. osp_exists p))))) w = (r, w')"
    by simp
  from run show thesis
  proof (cases rule: io_bindE)
    case (raised e)
    from read_text_same [OF raised(1)] have "w' = w" .
    with raised show ?thesis by (intro read_failed [of e]) simp_all
  next
    case (continued cur w1)
    from read_text_same [OF continued(1)] have w1: "w1 = w" .
    with continued(1) have rd: "read_text p w = (Inr cur, w)" by simp
    from continued(2) show ?thesis
    proof (cases rule: io_bindE)
      case (raised e)
      from llm_call_result [OF raised(1)] w1 have
        "get_response_from_llm env reflection_prompt cm notebook_system_message_template (Some h) = Inl e"
        "w' = asked w reflection_prompt"
        by (simp_all add: asked_def)
      with rd raised(2) show ?thesis by (intro llm_failed [of cur e]) simp_all
    next
      case (continued x w2)
      obtain rr h' where x: "x = (rr, h')" by (cases x)
      from llm_call_result [OF continued(1)] x w1 have
        llm: "get_response_from_llm env reflection_prompt cm notebook_system_message_template (Some h) = Inr (rr, h')"
        and w2: "w2 = asked w reflection_prompt"
        by (simp_all add: asked_def)
      have abs2: "absent w2 p = absent w p"
        by (simp add: w2 absent_def asked_def)
      have exit_with: "r = Inr (\<not> absent w p) \<and> w' = printed_line (asked w reflection_prompt) s"
        if "io_bind (print_line s) (\<lambda>_. osp_exists p) w2 = (r, w')" for s
      proof -
        from that obtain w3 where "print_line s w2 = (Inr (), w3)" "osp_exists p w3 = (r, w')"
          by (cases rule: io_bindE) (auto dest: print_line_result)
        from print_line_result [OF this(1)] have w3: "w3 = printed_line w2 s"
          by (simp add: printed_line_def)
        from osp_exists_result [OF \<open>osp_exists p w3 = (r, w')\<close>]
        have "r = Inr (\<not> absent w3 p)" "w' = w3" by simp_all
        then show ?thesis by (simp add: w3 w2)
      qed
      show ?thesis
      proof (cases "contains ''I am done'' rr")
        case True
        with continued(2) x have
          "io_bind (print_line ''LLM indicated it is done with reflections. Exiting reflection loop.'')
             (\<lambda>_. osp_exists p) w2 = (r, w')" by simp
        from exit_with [OF this] rd llm True show ?thesis
          by (intro sentinel [of cur rr h']) simp_all
      next
        case False
        show ?thesis
        proof (cases "re_search_markdown resp")
          case None
          with False continued(2) x have "r = Inr False" "w' = w2"
            by (simp_all add: io_return_def)
          with None False llm w2 rd show ?thesis
            by (intro no_match [of cur rr h']) simp_all
        next
          case (Some g)
          show ?thesis
          proof (cases "strip g = cur")
            case True
            with Some False continued(2) x have
              "io_bind (print_line (''No changes in reflection step '' @ str_of_nat (i + 1) @ ''.''))
                 (\<lambda>_. osp_exists p) w2 = (r, w')" by simp
            from exit_with [OF this] rd llm True Some False show ?thesis
              by (intro unchanged [of cur rr h' g]) simp_all
          next
            case ne: False
            with Some False continued(2) x have
              sv: "io_bind (save_notebook p (strip g)) (\<lambda>_. reflection_loop env cm p resp rest h') w2 = (r, w')"
              by (simp add: Let_def)
            from sv show ?thesis
            proof (cases rule: io_bindE)
              case (raised e)
              from save_notebook_result [OF raised(1)] have
                "write_file p (strip g) (root w) = Inl e" "w' = asked w reflection_prompt"
                by (auto simp add: w2 asked_def)
              with raised(2) ne Some False llm rd show ?thesis
                by (intro save_failed [of cur rr h' g e]) simp_all
            next
              case (continued u w3)
              from save_notebook_result [OF continued(1)] obtain t where
                t: "write_file p (strip g) (root w) = Inr t"
                   "w3 = printed_line ((asked w reflection_prompt)\<lparr>root := t\<rparr>) ''Lab notebook successfully saved''"
                by (auto simp add: w2 asked_def printed_line_def)
              with continued(2) ne Some False llm rd show ?thesis
                by (intro saved [of cur rr h' g t]) simp_all
            qed
          qed
        qed
      qed
    qed
  qed
qed

subsection \<open>The reflection loop as a whole\<close>

lemma replicate_snoc_le:
  assumes "k \<le> n" "xs = (ys @ [a]) @ replicate k a"
  shows "\<exists>k'\<le>Suc n. xs = ys @ replicate k' a"
  using assms by (intro exI [of _ "Suc k"]) (simp add: replicate_append_same)

lemma reflection_loop_effects:
  "reflection_loop env cm p resp idx h w = (r, w') \<Longrightarrow>
   (\<exists>k\<le>length idx. llm_requests w' = llm_requests w @ replicate k reflection_prompt) \<and>
   (\<forall>q. Inr q \<noteq> resolve (root w) p \<longrightarrow> stat_at (root w') q = stat_at (root w) q) \<and>
   prefix (stdout w) (stdout w')"
proof (induction idx arbitrary: h w)
  case Nil
  then show ?case by (simp add: osp_exists_absent)
next
  case (Cons i rest)
  have one: "\<exists>k\<le>Suc (length rest). llm_requests w @ [reflection_prompt] = llm_requests w @ replicate k reflection_prompt"
    by (intro exI [of _ 1]) simp
  have zero: "\<exists>k\<le>Suc (length rest). llm_requests w = llm_requests w @ replicate k reflection_prompt"
    by (intro exI [of _ 0]) simp
  from Cons.prems show ?case
  proof (cases rule: reflection_loop_Cons_cases)
    case (read_failed e)
    with zero show ?thesis by simp
  next
    case (llm_failed cur e)
    with one show ?thesis by simp
  next
    case (sentinel cur rr h')
    with one show ?thesis by simp
  next
    case (no_match cur rr h')
    with one show ?thesis by simp
  next
    case (unchanged cur rr h' g)
    with one show ?thesis by simp
  next
    case (save_failed cur rr h' g e)
    with one show ?thesis by simp
  next
    case (saved cur rr h' g t)
    from Cons.IH [OF saved(7)] obtain k where
      k: "k \<le> length rest" "llm_requests w' = (llm_requests w @ [reflection_prompt]) @ replicate k reflection_prompt"
      and fr: "\<forall>q. Inr q \<noteq> resolve t p \<longrightarrow> stat_at (root w') q = stat_at t q"
      and out: "prefix (stdout w @ [Line ''Lab notebook successfully saved'']) (stdout w')"
      by auto
    from replicate_snoc_le [OF k] have
      "\<exists>k\<le>length (i # rest). llm_requests w' = llm_requests w @ replicate k reflection_prompt"
      by simp
    moreover from fr write_file_frame [OF saved(6)] write_file_resolve [OF saved(6)]
    have "\<forall>q. Inr q \<noteq> resolve (root w) p \<longrightarrow> stat_at (root w') q = stat_at (root w) q" by simp
    moreover from out have "prefix (stdout w) (stdout w')"
      using append_prefixD by blast
    ultimately show ?thesis by blast
  qed
qed

lemma reflection_loop_fixed:
  assumes "re_search_markdown resp = Some g"
    and "holds_text w p (strip g)"
    and "reflection_loop env cm p resp idx h w = (r, w')"
  shows "root w' = root w \<and> r \<noteq> Inr False \<and>
         (universal_newlines (strip g) = strip g \<longrightarrow>
            (\<exists>k\<le>1. llm_requests w' = llm_requests w @ replicate k reflection_prompt))"
  using assms(2,3)
proof (induction idx arbitrary: h w)
  case Nil
  then have "w' = w" "r = Inr (\<not> absent w p)" "\<not> absent w p"
    by (simp_all add: osp_exists_absent holds_text_def absent_def path_exists_def)
  moreover have "\<exists>k\<le>1. llm_requests w = llm_requests w @ replicate k reflection_prompt"
    by (intro exI [of _ 0]) simp
  ultimately show ?case by simp
next
  case (Cons i rest)
  from Cons.prems(1) have present: "\<not> absent w p"
    by (simp add: holds_text_def absent_def path_exists_def)
  note rd = read_text_holds [OF Cons.prems(1)]
  have one: "\<exists>k\<le>1. llm_requests w @ [reflection_prompt] = llm_requests w @ replicate k reflection_prompt"
    by (intro exI [of _ 1]) simp
  from Cons.prems(2) show ?case
  proof (cases rule: reflection_loop_Cons_cases)
    case (read_failed e)
    with rd show ?thesis by simp
  next
    case (llm_failed cur e)
    with one show ?thesis by simp
  next
    case (sentinel cur rr h')
    with one present show ?thesis by simp
  next
    case (no_match cur rr h')
    with assms(1) show ?thesis by simp
  next
    case (unchanged cur rr h' g')
    with one present show ?thesis by simp
  next
    case (save_failed cur rr h' g' e)
    with assms(1) have "write_file p (strip g) (root w) = Inl e" by simp
    moreover from write_file_same [of "root w" p "strip g"] Cons.prems(1)
    have "write_file p (strip g) (root w) = Inr (root w)" by (simp add: holds_text_def)
    ultimately show ?thesis by simp
  next
    case (saved cur rr h' g' t)
    with assms(1) have g': "g' = g" by simp
    from write_file_same [of "root w" p "strip g"] Cons.prems(1)
    have "write_file p (strip g) (root w) = Inr (root w)" by (simp add: holds_text_def)
    with saved(6) g' have t: "t = root w" by simp
    have "holds_text (printed_line ((asked w reflection_prompt)\<lparr>root := t\<rparr>)
                        ''Lab notebook successfully saved'') p (strip g)"
      using Cons.prems(1) t by (simp add: holds_text_def)
    from Cons.IH [OF this saved(7)] t have "root w' = root w" "r \<noteq> Inr False" by simp_all
    moreover have "universal_newlines (strip g) \<noteq> strip g"
      using saved(1,5) rd g' by simp
    ultimately show ?thesis by simp
  qed
qed

subsection \<open>The second part of the try block\<close>

lemma write_notebook_cases:
  assumes "write_notebook env base model n g w = (r, w')"
  obtains
    (client_failed) e where
      "create_client env model = Inl e" "r = Inl e" "w' = w"
  | (llm_failed) cm e where
      "create_client env model = Inr cm"
      "get_response_from_llm env (combined_prompt g) cm notebook_system_message_template None = Inl e"
      "r = Inl e" "w' = asked w (combined_prompt g)"
  | (no_match) cm resp h where
      "create_client env model = Inr cm"
      "get_response_from_llm env (combined_prompt g) cm notebook_system_message_template None = Inr (resp, h)"
      "re_search_markdown resp = None"
      "r = Inr False" "w' = asked w (combined_prompt g)"
  | (save_failed) cm resp h blk e where
      "create_client env model = Inr cm"
      "get_response_from_llm env (combined_prompt g) cm notebook_system_message_template None = Inr (resp, h)"
      "re_search_markdown resp = Some blk"
      "write_file (notebook_file_of base) (strip blk) (root w) = Inl e"
      "r = Inl e" "w' = asked w (combined_prompt g)"
  | (reflecting) cm resp h blk t where
      "create_client env model = Inr cm"
      "get_response_from_llm env (combined_prompt g) cm notebook_system_message_template None = Inr (resp, h)"
      "re_search_markdown resp = Some blk"
      "write_file (notebook_file_of base) (strip blk) (root w) = Inr t"
      "reflection_loop env cm (notebook_file_of base) resp [0 ..< nat n] h
         (printed_line ((asked w (combined_prompt g))\<lparr>root := t\<rparr>) ''Lab notebook successfully saved'')
         = (r, w')"
proof -
  from assms [unfolded write_notebook_def] show thesis
  proof (cases rule: io_bindE)
    case (raised e)
    from io_of_result [OF raised(1)] raised(2) show ?thesis
      by (intro client_failed [of e]) simp_all
  next
    case (continued cm w1)
    from io_of_result [OF continued(1)] have cm: "create_client env model = Inr cm" and w1: "w1 = w"
      by simp_all
    from continued(2) show ?thesis
    proof (cases rule: io_bindE)
      case (raised e)
      from llm_call_result [OF raised(1)] w1 have
        "get_response_from_llm env (combined_prompt g) cm notebook_system_message_template None = Inl e"
        "w' = asked w (combined_prompt g)"
        by (simp_all add: asked_def)
      with cm raised(2) show ?thesis by (intro llm_failed [of cm e]) simp_all
    next
      case (continued x w2)
      obtain resp h where x: "x = (resp, h)" by (cases x)
      from llm_call_result [OF continued(1)] x w1 have
        llm: "get_response_from_llm env (combined_prompt g) cm notebook_system_message_template None = Inr (resp, h)"
        and w2: "w2 = asked w (combined_prompt g)"
        by (simp_all add: asked_def)
      show ?thesis
      proof (cases "re_search_markdown resp")
        case None
        with continued(2) x have "r = Inr False" "w' = w2" by (simp_all add: io_return_def)
        with None cm llm w2 show ?thesis by (intro no_match [of cm resp h]) simp_all
      next
        case (Some blk)
        with continued(2) x have
          "io_bind (save_notebook (notebook_file_of base) (strip blk)) (\<lambda>_.
              reflection_loop env cm (notebook_file_of base) resp [0 ..< nat n] h) w2 = (r, w')"
          by simp
        then show ?thesis
        proof (cases rule: io_bindE)
          case (raised e)
          from save_notebook_result [OF raised(1)] have
            "write_file (notebook_file_of base) (strip blk) (root w) = Inl e"
            "w' = asked w (combined_prompt g)"
            by (auto simp add: w2)
          with raised(2) Some cm llm show ?thesis
            by (intro save_failed [of cm resp h blk e]) simp_all
        next
          case (continued u w3)
          from save_notebook_result [OF continued(1)] obtain t where
            "write_file (notebook_file_of base) (strip blk) (root w) = Inr t"
            "w3 = printed_line ((asked w (combined_prompt g))\<lparr>root := t\<rparr>) ''Lab notebook successfully saved''"
            by (auto simp add: w2 asked_def printed_line_def)
          with continued(2) Some cm llm show ?thesis
            by (intro reflecting [of cm resp h blk t]) simp_all
        qed
      qed
    qed
  qed
qed



lemma write_notebook_requests_client:
  assumes "write_notebook env base model n g w = (r, w')" and "create_client env model = Inr cm"
  shows "\<exists>k\<le>nat n. llm_requests w' = llm_requests w @ combined_prompt g # replicate k reflection_prompt"
  using assms(1)
proof (cases rule: write_notebook_cases)
  case (client_failed e)
  with assms(2) show ?thesis by simp
next
  case (reflecting cm resp h blk t)
  from reflection_loop_effects [OF reflecting(5)] show ?thesis by auto
qed (auto intro: exI [of _ 0])

lemma create_lab_notebook_first_request:
  assumes p: "prepare_notebook_folder base w = (Inr (), w1)"
    and g: "gather_inputs env base w1 = (Inr g, w2)"
    and c: "create_client env model = Inr cm"
  shows "\<exists>k\<le>nat n. llm_requests (snd (create_lab_notebook env base model n w)) =
           llm_requests w @ combined_prompt g # replicate k reflection_prompt"
proof -
  obtain r w3 where wn: "write_notebook env base model n g w2 = (r, w3)"
    by (cases "write_notebook env base model n g w2")
  from write_notebook_requests_client [OF wn c] obtain k where
    k: "k \<le> nat n" "llm_requests w3 = llm_requests w2 @ combined_prompt g # replicate k reflection_prompt"
    by blast
  from g wn have tb: "try_block env base model n w1 = (r, w3)"
    by (simp add: try_block_def io_bind_def)
  have "llm_requests (snd (create_lab_notebook env base model n w)) = llm_requests w3"
    using p tb by (cases r) (simp_all add: create_lab_notebook_result)
  moreover from gather_inputs_frame [OF g] prepare_notebook_folder_quiet [OF p]
  have "llm_requests w2 = llm_requests w" by simp
  ultimately show ?thesis using k by auto
qed

subsection \<open>The regular expression search finds the first fenced block\<close>

lemma startswith_prefix: "startswith s pre \<longleftrightarrow> prefix pre s"
  unfolding startswith_def prefix_def by (metis append_eq_conv_conj append_take_drop_id)

lemma startswith_append: "startswith (pre @ rest) pre"
  by (simp add: startswith_def)

lemma lazy_until_fence_Cons:
  "lazy_until_fence (c # cs) =
     (if startswith (c # cs) ''```'' then Some [] else map_option ((#) c) (lazy_until_fence cs))"
  by simp

lemma lazy_until_fence_Some:
  "lazy_until_fence s = Some g \<longleftrightarrow>
     (\<exists>post. s = g @ ''```'' @ post) \<and> (\<forall>j<length g. \<not> startswith (drop j s) ''```'')"
proof (induction s arbitrary: g)
  case Nil
  show ?case by simp
next
  case (Cons c cs)
  show ?case
  proof (cases "startswith (c # cs) ''```''")
    case True
    then obtain post where post: "c # cs = ''```'' @ post"
      unfolding startswith_prefix prefix_def by blast
    have l: "lazy_until_fence (c # cs) = Some []"
      using True by (simp only: lazy_until_fence_Cons if_True)
    have "g = []" if "\<forall>j<length g. \<not> startswith (drop j (c # cs)) ''```''"
    proof (rule ccontr)
      assume "g \<noteq> []"
      then have "0 < length g" by simp
      with that have "\<not> startswith (drop 0 (c # cs)) ''```''" by blast
      with True show False by simp
    qed
    moreover have "\<exists>post. c # cs = [] @ ''```'' @ post" using post by auto
    ultimately show ?thesis unfolding l by auto
  next
    case False
    have l: "lazy_until_fence (c # cs) = map_option ((#) c) (lazy_until_fence cs)"
      using False by (simp only: lazy_until_fence_Cons if_False)
    show ?thesis
    proof
      assume "lazy_until_fence (c # cs) = Some g"
      with l obtain g' where g': "g = c # g'" "lazy_until_fence cs = Some g'" by auto
      from Cons.IH [of g'] g'(2) obtain post where
        post: "cs = g' @ ''```'' @ post" and m: "\<forall>j<length g'. \<not> startswith (drop j cs) ''```''"
        by blast
      have "\<not> startswith (drop j (c # cs)) ''```''" if "j < length g" for j
      proof (cases j)
        case 0
        with False show ?thesis by simp
      next
        case (Suc j')
        with that g'(1) m show ?thesis by simp
      qed
      moreover from post g'(1) have "\<exists>post. c # cs = g @ ''```'' @ post" by simp
      ultimately show "(\<exists>post. c # cs = g @ ''```'' @ post) \<and>
         (\<forall>j<length g. \<not> startswith (drop j (c # cs)) ''```'')" by blast
    next
      assume r: "(\<exists>post. c # cs = g @ ''```'' @ post) \<and>
         (\<forall>j<length g. \<not> startswith (drop j (c # cs)) ''```'')"
      then obtain post where post: "c # cs = g @ ''```'' @ post"
        and m: "\<forall>j<length g. \<not> startswith (drop j (c # cs)) ''```''" by blast
      have "g \<noteq> []"
      proof
        assume "g = []"
        with post have "c # cs = ''```'' @ post" by simp
        then have "startswith (c # cs) ''```''" by (simp only: startswith_append)
        with False show False ..
      qed
      with post obtain g' where g': "g = c # g'" "cs = g' @ ''```'' @ post" by (cases g) auto
      have "\<not> startswith (drop j cs) ''```''" if "j < length g'" for j
        using m [rule_format, of "Suc j"] that g'(1) by simp
      with Cons.IH [of g'] g'(2) have "lazy_until_fence cs = Some g'" by blast
      with l g'(1) show "lazy_until_fence (c # cs) = Some g" by simp
    qed
  qed
qed

lemma lazy_until_fence_not_None: "lazy_until_fence (a @ ''```'' @ b) \<noteq> None"
proof (induction a)
  case Nil
  have "startswith (''```'' @ b) ''```''" by (rule startswith_append)
  then show ?case by (simp add: lazy_until_fence_Cons)
next
  case (Cons c a)
  then show ?case by auto
qed

lemma match_here_opening:
  "match_here (''```markdown'' @ rest) = lazy_until_fence rest"
proof -
  have "startswith (''```markdown'' @ rest) ''```markdown''" by (rule startswith_append)
  then show ?thesis unfolding match_here_def by simp
qed

lemma match_here_Some:
  "match_here s = Some g \<Longrightarrow> \<exists>rest. s = ''```markdown'' @ rest \<and> lazy_until_fence rest = Some g"
  unfolding match_here_def startswith_prefix prefix_def
  by (auto split: if_splits)

lemma match_here_no_opening: "\<not> startswith s ''```markdown'' \<Longrightarrow> match_here s = None"
  by (simp add: match_here_def)

lemma re_search_markdown_Cons:
  "re_search_markdown (c # cs) =
     (case match_here (c # cs) of Some g \<Rightarrow> Some g | None \<Rightarrow> re_search_markdown cs)"
  by simp

lemma re_search_markdown_first:
  assumes "first_fenced_block s inner"
  shows "re_search_markdown s = Some inner"
proof -
  from assms obtain pre post where
    s: "s = pre @ ''```markdown'' @ inner @ ''```'' @ post"
    and o: "\<forall>i<length pre. \<not> startswith (drop i s) ''```markdown''"
    and c: "\<forall>j<length inner. \<not> startswith (drop j (inner @ ''```'' @ post)) ''```''"
    unfolding first_fenced_block_def by blast
  from c have l: "lazy_until_fence (inner @ ''```'' @ post) = Some inner"
    by (subst lazy_until_fence_Some) blast
  from o show ?thesis unfolding s
  proof (induction pre)
    case Nil
    have "match_here (''```markdown'' @ inner @ ''```'' @ post) = Some inner"
      by (simp only: match_here_opening l)
    then show ?case by (simp del: re_search_markdown.simps add: re_search_markdown_Cons)
  next
    case (Cons x pre)
    from Cons.prems [rule_format, of 0]
    have "match_here ((x # pre) @ ''```markdown'' @ inner @ ''```'' @ post) = None"
      by (intro match_here_no_opening) simp
    moreover have "\<forall>i<length pre. \<not> startswith (drop i (pre @ ''```markdown'' @ inner @ ''```'' @ post)) ''```markdown''"
      using Cons.prems by (auto dest: spec [of _ "Suc i" for i])
    ultimately show ?case using Cons.IH
      by (simp del: re_search_markdown.simps add: re_search_markdown_Cons)
  qed
qed

lemma re_search_markdown_Some:
  "re_search_markdown s = Some g \<Longrightarrow> first_fenced_block s g"
proof (induction s)
  case Nil
  then show ?case by simp
next
  case (Cons c cs)
  show ?case
  proof (cases "match_here (c # cs)")
    case (Some g')
    with Cons.prems have "g' = g" by simp
    with Some match_here_Some obtain rest where
      rest: "c # cs = ''```markdown'' @ rest" "lazy_until_fence rest = Some g" by blast
    from rest(2) [unfolded lazy_until_fence_Some] obtain post where
      post: "rest = g @ ''```'' @ post" and m: "\<forall>j<length g. \<not> startswith (drop j rest) ''```''"
      by blast
    have "c # cs = [] @ ''```markdown'' @ g @ ''```'' @ post \<and>
        (\<forall>i<length ([]::string). \<not> startswith (drop i (c # cs)) ''```markdown'') \<and>
        (\<forall>j<length g. \<not> startswith (drop j (g @ ''```'' @ post)) ''```'')"
      using rest(1) post m by simp
    then show ?thesis unfolding first_fenced_block_def by blast
  next
    case None
    with Cons.prems have "re_search_markdown cs = Some g" by simp
    from Cons.IH [OF this] obtain pre post where
      cs: "cs = pre @ ''```markdown'' @ g @ ''```'' @ post"
      and o: "\<forall>i<length pre. \<not> startswith (drop i cs) ''```markdown''"
      and m: "\<forall>j<length g. \<not> startswith (drop j (g @ ''```'' @ post)) ''```''"
      unfolding first_fenced_block_def by blast
    have first: "\<not> startswith (c # cs) ''```markdown''"
    proof
      assume "startswith (c # cs) ''```markdown''"
      then obtain rest where rest: "c # cs = ''```markdown'' @ rest"
        unfolding startswith_prefix prefix_def by blast
      with None have n: "lazy_until_fence rest = None" by (simp only: match_here_opening)
      define X where "X = c # pre @ ''```markdown'' @ g"
      have len: "11 - length X = 0" by (simp add: X_def)
      have "c # cs = X @ ''```'' @ post" using cs by (simp add: X_def)
      then have "drop 11 (c # cs) = drop 11 X @ ''```'' @ post"
        by (simp add: len)
      moreover from rest have "drop 11 (c # cs) = rest" by simp
      ultimately have "rest = drop 11 X @ ''```'' @ post" by simp
      with lazy_until_fence_not_None [of "drop 11 X" post] n show False by simp
    qed
    have "\<not> startswith (drop i (c # cs)) ''```markdown''" if "i < length (c # pre)" for i
    proof (cases i)
      case 0
      with first show ?thesis by simp
    next
      case (Suc i')
      with that o show ?thesis by simp
    qed
    moreover have "c # cs = (c # pre) @ ''```markdown'' @ g @ ''```'' @ post" using cs by simp
    ultimately show ?thesis using m unfolding first_fenced_block_def by blast
  qed
qed

lemma re_search_markdown_has_block:
  assumes "has_fenced_block s"
  shows "re_search_markdown s \<noteq> None"
proof -
  from assms obtain pre inner post where
    "s = pre @ ''```markdown'' @ inner @ ''```'' @ post"
    unfolding has_fenced_block_def by blast
  moreover have "re_search_markdown (pre @ ''```markdown'' @ inner @ ''```'' @ post) \<noteq> None"
  proof (induction pre)
    case Nil
    have "match_here (''```markdown'' @ inner @ ''```'' @ post) \<noteq> None"
      by (simp only: match_here_opening lazy_until_fence_not_None not_False_eq_True)
    then show ?case by (auto simp del: re_search_markdown.simps simp add: re_search_markdown_Cons)
  next
    case (Cons x pre)
    then show ?case
      by (auto simp del: re_search_markdown.simps simp add: re_search_markdown_Cons split: option.splits)
  qed
  ultimately show ?thesis by simp
qed

lemma first_fenced_block_has_block: "first_fenced_block s inner \<Longrightarrow> has_fenced_block s"
  unfolding first_fenced_block_def has_fenced_block_def by blast

lemma re_search_markdown_None_iff: "re_search_markdown s = None \<longleftrightarrow> \<not> has_fenced_block s"
  using re_search_markdown_has_block [of s] re_search_markdown_Some [of s]
    first_fenced_block_has_block [of s]
  by (cases "re_search_markdown s") auto

lemma re_search_markdown_Some_iff: "re_search_markdown s = Some g \<longleftrightarrow> first_fenced_block s g"
  using re_search_markdown_Some re_search_markdown_first by blast

lemma strip_spec:
  "\<exists>a b. s = a @ strip s @ b \<and> list_all is_space a \<and> list_all is_space b \<and>
         (strip s \<noteq> [] \<longrightarrow> \<not> is_space (hd (strip s)) \<and> \<not> is_space (last (strip s)))"
proof -
  define d where "d = dropWhile is_space s"
  define e where "e = dropWhile is_space (rev d)"
  have st: "strip s = rev e" by (simp add: strip_def d_def e_def)
  have s: "s = takeWhile is_space s @ d" by (simp add: d_def)
  have "rev d = takeWhile is_space (rev d) @ e" by (simp add: e_def)
  then have "rev (rev d) = rev (takeWhile is_space (rev d) @ e)" by (rule arg_cong)
  then have d: "d = rev e @ rev (takeWhile is_space (rev d))" by simp
  have a: "list_all is_space (takeWhile is_space s)"
    by (simp add: list_all_iff) (meson set_takeWhileD)
  have b: "list_all is_space (rev (takeWhile is_space (rev d)))"
    by (simp add: list_all_iff) (meson set_takeWhileD)
  have ends: "\<not> is_space (hd (rev e)) \<and> \<not> is_space (last (rev e))" if ne: "rev e \<noteq> []"
  proof -
    from ne have e: "e \<noteq> []" by simp
    then have "\<not> is_space (hd e)" unfolding e_def by (rule hd_dropWhile)
    with e have l: "\<not> is_space (last (rev e))" by (simp add: last_rev)
    from d e have dne: "d \<noteq> []" by auto
    then have hd: "\<not> is_space (hd d)" unfolding d_def by (rule hd_dropWhile)
    from d e have "hd d = hd (rev e)" by (metis hd_append2 rev_is_Nil_conv)
    with hd l show ?thesis by simp
  qed
  from s d have "s = takeWhile is_space s @ strip s @ rev (takeWhile is_space (rev d))"
    by (simp add: st)
  with a b ends st show ?thesis by metis
qed

section \<open>The claims\<close>

subsection \<open>C1: exceptions and the boolean result\<close>

text \<open>
  C1, as stated, fails: the removal and creation of the notebook folder and the copy of
  the figures directory stand before the \<open>try\<close>, so an exception raised there leaves the
  function. In the example world the folder \<open>q\<close> has no figures directory, and
  \<open>shutil.copytree\<close> raises \<open>FileNotFoundError\<close>, which the caller receives.
\<close>

theorem create_lab_notebook_propagates_copytree_error:
  "fst (create_lab_notebook ex_env ''q'' ''m'' 3 ex_world) = Inl FileNotFoundError"
  by code_simp

text \<open>
  C1, amended: whenever the statements before the \<open>try\<close> complete, the call returns a
  boolean; and an exception \<open>e\<close> raised in the \<open>try\<close> block is caught: the call returns
  \<open>False\<close> after printing the banner and the traceback of \<open>e\<close>.
\<close>

theorem create_lab_notebook_catches_in_try:
  assumes "fst (prepare_notebook_folder base_folder w) = Inr ()"
  shows "(\<exists>b. fst (create_lab_notebook env base_folder model n w) = Inr b) \<and>
         (\<forall>e. fst (try_block env base_folder model n (snd (prepare_notebook_folder base_folder w)))
                = Inl e \<longrightarrow>
              fst (create_lab_notebook env base_folder model n w) = Inr False \<and>
              stdout (snd (create_lab_notebook env base_folder model n w)) =
                stdout (snd (try_block env base_folder model n
                               (snd (prepare_notebook_folder base_folder w))))
                @ [Line ''EXCEPTION in create_lab_notebook:'', Traceback e])"
  using assms
  by (auto simp add: create_lab_notebook_result split: prod.splits sum.splits)

theorem create_lab_notebook_catches_in_try_witness:
  "fst (prepare_notebook_folder ''p'' ex_world) = Inr () \<and>
   fst (create_lab_notebook ex_env_no_client ''p'' ''m'' 3 ex_world) = Inr False \<and>
   stdout (snd (create_lab_notebook ex_env_no_client ''p'' ''m'' 3 ex_world)) =
     [Line ''EXCEPTION in create_lab_notebook:'', Traceback (OtherError ''unknown model'')]"
proof -
  have h: "fst (prepare_notebook_folder ''p'' ex_world) = Inr ()"
    by code_simp
  have t: "fst (try_block ex_env_no_client ''p'' ''m'' 3 (snd (prepare_notebook_folder ''p'' ex_world)))
           = Inl (OtherError ''unknown model'')"
    by code_simp
  have s: "stdout (snd (try_block ex_env_no_client ''p'' ''m'' 3
                          (snd (prepare_notebook_folder ''p'' ex_world)))) = []"
    by code_simp
  from create_lab_notebook_catches_in_try [OF h, of ex_env_no_client "''m''" 3] t s h
  show ?thesis by simp
qed

subsection \<open>C2: input files that are missing\<close>

text \<open>
  C2, as stated, fails for the aggregator script: when \<open>auto_plot_aggregator.py\<close> is
  missing the prompt receives the text \<open>No aggregator script found.\<close>, not the empty
  string. In the example world the script is missing and the one prompt sent is the
  template filled with that text.
\<close>

theorem missing_aggregator_placeholder_in_prompt:
  "absent ex_world (osp_join ''p'' ''auto_plot_aggregator.py'') \<and>
   llm_requests (snd (create_lab_notebook ex_env ''p'' ''m'' 0 ex_world)) =
     [notebook_prompt_format ''idea'' ex_summaries_text ''No aggregator script found.'' ''a.PNG'' []
        ''a.PNG: a curve'']"
  by code_simp

text \<open>
  C2, amended. \<open>w\<close> is the world in which the \<open>try\<close> block starts.
  \<^item> A missing idea file (both \<open>research_idea.md\<close> and \<open>idea.md\<close>) yields the empty
    string, a missing summary file the empty object, a missing aggregator script the text
    \<open>No aggregator script found.\<close>; each of these steps returns normally and leaves the
    world as it is.
  \<^item> Whenever the inputs are gathered, the prompt is the template filled with the gathered
    values, the summaries being the printed dictionary of the loaded summaries; for a
    missing input the value is its default: the idea text in the prompt is empty, the
    dictionary holds the empty object under the key of a missing summary (and is the
    dictionary of three empty objects when all three are missing), the aggregator code in
    the prompt is the placeholder.
  \<^item> That prompt is what is sent: when the language model client is created, the
    requests of the second part of the \<open>try\<close> block start with it, and so do the
    requests of the whole call.
  \<^item> With all of these files missing (the figures directory present, no notebook file) the
    inputs are gathered without an exception.
\<close>

theorem missing_inputs_get_defaults:
  "(absent w (osp_join base ''research_idea.md'') \<and> absent w (osp_join base ''idea.md'') \<longrightarrow>
      load_idea_text base w = (Inr [], w)) \<and>
   (\<forall>(fname, key) \<in> set summary_files.
      absent w (osp_join base fname) \<longrightarrow>
      load_summary env base fname key w = (Inr (JObject []), w)) \<and>
   (absent w (osp_join base ''auto_plot_aggregator.py'') \<longrightarrow>
      load_aggregator_code base w = (Inr ''No aggregator script found.'', w)) \<and>
   (\<forall>g w'. gather_inputs env base w = (Inr g, w') \<longrightarrow>
      combined_prompt g =
        notebook_prompt_format (idea_text g) (json_dumps env (JObject (loaded_summaries g)))
          (aggregator_code g) (str_join '', '' (plot_names g)) (current_notebook g)
          (plot_descriptions_str g) \<and>
      combined_summaries_str g = json_dumps env (JObject (loaded_summaries g)) \<and>
      (absent w (osp_join base ''research_idea.md'') \<and> absent w (osp_join base ''idea.md'') \<longrightarrow>
         idea_text g = [] \<and>
         combined_prompt g =
           notebook_prompt_format [] (json_dumps env (JObject (loaded_summaries g)))
             (aggregator_code g) (str_join '', '' (plot_names g)) (current_notebook g)
             (plot_descriptions_str g)) \<and>
      (\<forall>(fname, key) \<in> set summary_files.
         absent w (osp_join base fname) \<longrightarrow> map_of (loaded_summaries g) key = Some (JObject [])) \<and>
      ((\<forall>(fname, key) \<in> set summary_files. absent w (osp_join base fname)) \<longrightarrow>
         loaded_summaries g =
           [(''BASELINE_SUMMARY'', JObject []), (''RESEARCH_SUMMARY'', JObject []),
            (''ABLATION_SUMMARY'', JObject [])]) \<and>
      (absent w (osp_join base ''auto_plot_aggregator.py'') \<longrightarrow>
         aggregator_code g = ''No aggregator script found.'' \<and>
         combined_prompt g =
           notebook_prompt_format (idea_text g) (json_dumps env (JObject (loaded_summaries g)))
             ''No aggregator script found.'' (str_join '', '' (plot_names g)) (current_notebook g)
             (plot_descriptions_str g)) \<and>
      (\<forall>cm r w''. create_client env model = Inr cm \<and>
                  write_notebook env base model n g w' = (r, w'') \<longrightarrow>
         (\<exists>k\<le>nat n. llm_requests w'' =
                       llm_requests w @ combined_prompt g # replicate k reflection_prompt)) \<and>
      (\<forall>cm w0. create_client env model = Inr cm \<and>
                prepare_notebook_folder base w0 = (Inr (), w) \<longrightarrow>
         (\<exists>k\<le>nat n. llm_requests (snd (create_lab_notebook env base model n w0)) =
                       llm_requests w0 @ combined_prompt g # replicate k reflection_prompt))) \<and>
   (absent w (osp_join base ''research_idea.md'') \<and> absent w (osp_join base ''idea.md'') \<and>
    (\<forall>(fname, key) \<in> set summary_files. absent w (osp_join base fname)) \<and>
    absent w (osp_join base ''auto_plot_aggregator.py'') \<and>
    absent w (notebook_file_of base) \<and>
    (\<exists>es. node_at (root w) (osp_join base ''figures'') = Inr (Dir es)) \<longrightarrow>
      (\<exists>g w'. gather_inputs env base w = (Inr g, w')))"
proof (intro conjI)
  show "absent w (osp_join base ''research_idea.md'') \<and> absent w (osp_join base ''idea.md'') \<longrightarrow>
      load_idea_text base w = (Inr [], w)"
    by (simp add: load_idea_text_absent)
  show "\<forall>(fname, key) \<in> set summary_files.
      absent w (osp_join base fname) \<longrightarrow>
      load_summary env base fname key w = (Inr (JObject []), w)"
    by (auto simp add: load_summary_absent)
  show "absent w (osp_join base ''auto_plot_aggregator.py'') \<longrightarrow>
      load_aggregator_code base w = (Inr ''No aggregator script found.'', w)"
    by (simp add: load_aggregator_code_absent)
  show "\<forall>g w'. gather_inputs env base w = (Inr g, w') \<longrightarrow>
      combined_prompt g =
        notebook_prompt_format (idea_text g) (json_dumps env (JObject (loaded_summaries g)))
          (aggregator_code g) (str_join '', '' (plot_names g)) (current_notebook g)
          (plot_descriptions_str g) \<and>
      combined_summaries_str g = json_dumps env (JObject (loaded_summaries g)) \<and>
      (absent w (osp_join base ''research_idea.md'') \<and> absent w (osp_join base ''idea.md'') \<longrightarrow>
         idea_text g = [] \<and>
         combined_prompt g =
           notebook_prompt_format [] (json_dumps env (JObject (loaded_summaries g)))
             (aggregator_code g) (str_join '', '' (plot_names g)) (current_notebook g)
             (plot_descriptions_str g)) \<and>
      (\<forall>(fname, key) \<in> set summary_files.
         absent w (osp_join base fname) \<longrightarrow> map_of (loaded_summaries g) key = Some (JObject [])) \<and>
      ((\<forall>(fname, key) \<in> set summary_files. absent w (osp_join base fname)) \<longrightarrow>
         loaded_summaries g =
           [(''BASELINE_SUMMARY'', JObject []), (''RESEARCH_SUMMARY'', JObject []),
            (''ABLATION_SUMMARY'', JObject [])]) \<and>
      (absent w (osp_join base ''auto_plot_aggregator.py'') \<longrightarrow>
         aggregator_code g = ''No aggregator script found.'' \<and>
         combined_prompt g =
           notebook_prompt_format (idea_text g) (json_dumps env (JObject (loaded_summaries g)))
             ''No aggregator script found.'' (str_join '', '' (plot_names g)) (current_notebook g)
             (plot_descriptions_str g)) \<and>
      (\<forall>cm r w''. create_client env model = Inr cm \<and>
                  write_notebook env base model n g w' = (r, w'') \<longrightarrow>
         (\<exists>k\<le>nat n. llm_requests w'' =
                       llm_requests w @ combined_prompt g # replicate k reflection_prompt)) \<and>
      (\<forall>cm w0. create_client env model = Inr cm \<and>
                prepare_notebook_folder base w0 = (Inr (), w) \<longrightarrow>
         (\<exists>k\<le>nat n. llm_requests (snd (create_lab_notebook env base model n w0)) =
                       llm_requests w0 @ combined_prompt g # replicate k reflection_prompt))"
  proof (intro allI impI)
    fix g w'
    assume gi: "gather_inputs env base w = (Inr g, w')"
    from gather_inputs_Inr [OF gi] obtain w1 where
      s: "load_idea_text base w = (Inr (idea_text g), w)"
         "load_summaries env base summary_files [] w = (Inr (loaded_summaries g), w1)"
         "load_aggregator_code base w1 = (Inr (aggregator_code g), w1)"
         "combined_summaries_str g = json_dumps env (JObject (loaded_summaries g))"
         "root w1 = root w"
      by blast
    have d: "distinct (map snd summary_files)" by (simp add: summary_files_def)
    have prompt: "combined_prompt g =
        notebook_prompt_format (idea_text g) (json_dumps env (JObject (loaded_summaries g)))
          (aggregator_code g) (str_join '', '' (plot_names g)) (current_notebook g)
          (plot_descriptions_str g)"
      by (simp add: combined_prompt_def s(4))
    have summary: "map_of (loaded_summaries g) key = Some (JObject [])"
      if m: "(fname, key) \<in> set summary_files" and a: "absent w (osp_join base fname)"
      for fname key
    proof -
      from load_summaries_value [OF s(2) m d] obtain wa wb v where
        v: "load_summary env base fname key wa = (Inr v, wb)" "root wa = root w"
           "map_of (loaded_summaries g) key = Some v"
        by blast
      from a v(2) have "absent wa (osp_join base fname)" by (simp add: absent_def)
      from load_summary_absent [OF this, of env key] v show ?thesis by simp
    qed
    have all_summaries: "loaded_summaries g =
           [(''BASELINE_SUMMARY'', JObject []), (''RESEARCH_SUMMARY'', JObject []),
            (''ABLATION_SUMMARY'', JObject [])]"
      if "\<forall>(fname, key) \<in> set summary_files. absent w (osp_join base fname)"
      using load_summaries_all_absent [OF that, of env] s(2) by simp
    have aggregator: "aggregator_code g = ''No aggregator script found.''"
      if "absent w (osp_join base ''auto_plot_aggregator.py'')"
    proof -
      from that s(5) have "absent w1 (osp_join base ''auto_plot_aggregator.py'')"
        by (simp add: absent_def)
      from load_aggregator_code_absent [OF this] s(3) show ?thesis by simp
    qed
    have idea: "idea_text g = []"
      if "absent w (osp_join base ''research_idea.md'') \<and> absent w (osp_join base ''idea.md'')"
      using that s(1) by (simp add: load_idea_text_absent)
    have sent: "\<exists>k\<le>nat n. llm_requests w'' =
                       llm_requests w @ combined_prompt g # replicate k reflection_prompt"
      if "create_client env model = Inr cm \<and> write_notebook env base model n g w' = (r, w'')"
      for cm r w''
      using write_notebook_requests_client [of env base model n g w' r w'' cm] that
        gather_inputs_frame [OF gi] by simp
    have call: "\<exists>k\<le>nat n. llm_requests (snd (create_lab_notebook env base model n w0)) =
                       llm_requests w0 @ combined_prompt g # replicate k reflection_prompt"
      if "create_client env model = Inr cm \<and> prepare_notebook_folder base w0 = (Inr (), w)"
      for cm w0
      using create_lab_notebook_first_request [OF _ gi, of w0 model cm n] that by simp
    show "combined_prompt g =
        notebook_prompt_format (idea_text g) (json_dumps env (JObject (loaded_summaries g)))
          (aggregator_code g) (str_join '', '' (plot_names g)) (current_notebook g)
          (plot_descriptions_str g) \<and>
      combined_summaries_str g = json_dumps env (JObject (loaded_summaries g)) \<and>
      (absent w (osp_join base ''research_idea.md'') \<and> absent w (osp_join base ''idea.md'') \<longrightarrow>
         idea_text g = [] \<and>
         combined_prompt g =
           notebook_prompt_format [] (json_dumps env (JObject (loaded_summaries g)))
             (aggregator_code g) (str_join '', '' (plot_names g)) (current_notebook g)
             (plot_descriptions_str g)) \<and>
      (\<forall>(fname, key) \<in> set summary_files.
         absent w (osp_join base fname) \<longrightarrow> map_of (loaded_summaries g) key = Some (JObject [])) \<and>
      ((\<forall>(fname, key) \<in> set summary_files. absent w (osp_join base fname)) \<longrightarrow>
         loaded_summaries g =
           [(''BASELINE_SUMMARY'', JObject []), (''RESEARCH_SUMMARY'', JObject []),
            (''ABLATION_SUMMARY'', JObject [])]) \<and>
      (absent w (osp_join base ''auto_plot_aggregator.py'') \<longrightarrow>
         aggregator_code g = ''No aggregator script found.'' \<and>
         combined_prompt g =
           notebook_prompt_format (idea_text g) (json_dumps env (JObject (loaded_summaries g)))
             ''No aggregator script found.'' (str_join '', '' (plot_names g)) (current_notebook g)
             (plot_descriptions_str g)) \<and>
      (\<forall>cm r w''. create_client env model = Inr cm \<and>
                  write_notebook env base model n g w' = (r, w'') \<longrightarrow>
         (\<exists>k\<le>nat n. llm_requests w'' =
                       llm_requests w @ combined_prompt g # replicate k reflection_prompt)) \<and>
      (\<forall>cm w0. create_client env model = Inr cm \<and>
                prepare_notebook_folder base w0 = (Inr (), w) \<longrightarrow>
         (\<exists>k\<le>nat n. llm_requests (snd (create_lab_notebook env base model n w0)) =
                       llm_requests w0 @ combined_prompt g # replicate k reflection_prompt))"
    proof (intro conjI allI impI)
      show "combined_prompt g =
        notebook_prompt_format (idea_text g) (json_dumps env (JObject (loaded_summaries g)))
          (aggregator_code g) (str_join '', '' (plot_names g)) (current_notebook g)
          (plot_descriptions_str g)" by (rule prompt)
    next
      show "combined_summaries_str g = json_dumps env (JObject (loaded_summaries g))" by (rule s(4))
    next
      assume a: "absent w (osp_join base ''research_idea.md'') \<and> absent w (osp_join base ''idea.md'')"
      from idea [OF a] show "idea_text g = []" .
      from idea [OF a] prompt show "combined_prompt g =
           notebook_prompt_format [] (json_dumps env (JObject (loaded_summaries g)))
             (aggregator_code g) (str_join '', '' (plot_names g)) (current_notebook g)
             (plot_descriptions_str g)" by simp
    next
      show "\<forall>(fname, key) \<in> set summary_files.
         absent w (osp_join base fname) \<longrightarrow> map_of (loaded_summaries g) key = Some (JObject [])"
        using summary by blast
    next
      assume "\<forall>(fname, key) \<in> set summary_files. absent w (osp_join base fname)"
      then show "loaded_summaries g =
           [(''BASELINE_SUMMARY'', JObject []), (''RESEARCH_SUMMARY'', JObject []),
            (''ABLATION_SUMMARY'', JObject [])]" by (rule all_summaries)
    next
      assume a: "absent w (osp_join base ''auto_plot_aggregator.py'')"
      from aggregator [OF a] show "aggregator_code g = ''No aggregator script found.''" .
      from aggregator [OF a] prompt show "combined_prompt g =
           notebook_prompt_format (idea_text g) (json_dumps env (JObject (loaded_summaries g)))
             ''No aggregator script found.'' (str_join '', '' (plot_names g)) (current_notebook g)
             (plot_descriptions_str g)" by simp
    next
      fix cm r w''
      assume "create_client env model = Inr cm \<and> write_notebook env base model n g w' = (r, w'')"
      then show "\<exists>k\<le>nat n. llm_requests w'' =
                       llm_requests w @ combined_prompt g # replicate k reflection_prompt"
        by (rule sent)
    next
      fix cm w0
      assume "create_client env model = Inr cm \<and> prepare_notebook_folder base w0 = (Inr (), w)"
      then show "\<exists>k\<le>nat n. llm_requests (snd (create_lab_notebook env base model n w0)) =
                       llm_requests w0 @ combined_prompt g # replicate k reflection_prompt"
        by (rule call)
    qed
  qed
  show "absent w (osp_join base ''research_idea.md'') \<and> absent w (osp_join base ''idea.md'') \<and>
    (\<forall>(fname, key) \<in> set summary_files. absent w (osp_join base fname)) \<and>
    absent w (osp_join base ''auto_plot_aggregator.py'') \<and>
    absent w (notebook_file_of base) \<and>
    (\<exists>es. node_at (root w) (osp_join base ''figures'') = Inr (Dir es)) \<longrightarrow>
      (\<exists>g w'. gather_inputs env base w = (Inr g, w'))"
  proof (intro impI, elim conjE exE)
    fix es
    assume a: "absent w (osp_join base ''research_idea.md'')" "absent w (osp_join base ''idea.md'')"
      "\<forall>(fname, key) \<in> set summary_files. absent w (osp_join base fname)"
      "absent w (osp_join base ''auto_plot_aggregator.py'')"
      "absent w (notebook_file_of base)"
      "node_at (root w) (osp_join base ''figures'') = Inr (Dir es)"
    obtain r w' where d: "describe_plots env (osp_join base ''figures'')
        (filter (\<lambda>fplot. endswith (str_lower fplot) ''.png'') (map fst es)) w = (r, w')"
      by (cases "describe_plots env (osp_join base ''figures'')
        (filter (\<lambda>fplot. endswith (str_lower fplot) ''.png'') (map fst es)) w")
    from describe_plots_frame [OF d] obtain s where "r = Inr s" by blast
    with d a show "\<exists>g w'. gather_inputs env base w = (Inr g, w')"
      by (simp add: gather_inputs_def io_bind_def load_idea_text_absent load_summaries_all_absent
          load_current_notebook_absent gather_plot_names_dir load_aggregator_code_absent io_return_def)
  qed
qed

theorem missing_inputs_get_defaults_witness:
  "absent ex_world_bare_prepared (osp_join ''p'' ''research_idea.md'') \<and>
   absent ex_world_bare_prepared (osp_join ''p'' ''idea.md'') \<and>
   absent ex_world_bare_prepared (osp_join ''p'' ''logs/0-run/baseline_summary.json'') \<and>
   absent ex_world_bare_prepared (osp_join ''p'' ''logs/0-run/research_summary.json'') \<and>
   absent ex_world_bare_prepared (osp_join ''p'' ''logs/0-run/ablation_summary.json'') \<and>
   absent ex_world_bare_prepared (osp_join ''p'' ''auto_plot_aggregator.py'') \<and>
   absent ex_world_bare_prepared (notebook_file_of ''p'') \<and>
   prepare_notebook_folder ''p'' ex_world_bare = (Inr (), ex_world_bare_prepared) \<and>
   load_idea_text ''p'' ex_world_bare_prepared = (Inr [], ex_world_bare_prepared) \<and>
   load_summary ex_env ''p'' ''logs/0-run/ablation_summary.json'' ''ABLATION_SUMMARY''
     ex_world_bare_prepared = (Inr (JObject []), ex_world_bare_prepared) \<and>
   load_aggregator_code ''p'' ex_world_bare_prepared
     = (Inr ''No aggregator script found.'', ex_world_bare_prepared) \<and>
   gather_inputs ex_env ''p'' ex_world_bare_prepared = (Inr ex_gathered_bare, ex_world_bare_prepared) \<and>
   combined_prompt ex_gathered_bare =
     notebook_prompt_format [] ex_summaries_text ''No aggregator script found.'' ''a.PNG'' []
       ''a.PNG: a curve'' \<and>
   llm_requests (snd (create_lab_notebook ex_env ''p'' ''m'' 0 ex_world_bare)) =
     [notebook_prompt_format [] ex_summaries_text ''No aggregator script found.'' ''a.PNG'' []
        ''a.PNG: a curve'']"
proof -
  have a: "absent ex_world_bare_prepared (osp_join ''p'' ''research_idea.md'')"
    "absent ex_world_bare_prepared (osp_join ''p'' ''idea.md'')"
    "absent ex_world_bare_prepared (osp_join ''p'' ''auto_plot_aggregator.py'')"
    "absent ex_world_bare_prepared (notebook_file_of ''p'')"
    by code_simp+
  have s3: "absent ex_world_bare_prepared (osp_join ''p'' ''logs/0-run/baseline_summary.json'')"
    "absent ex_world_bare_prepared (osp_join ''p'' ''logs/0-run/research_summary.json'')"
    "absent ex_world_bare_prepared (osp_join ''p'' ''logs/0-run/ablation_summary.json'')"
    by code_simp+
  then have s: "\<forall>(fname, key) \<in> set summary_files. absent ex_world_bare_prepared (osp_join ''p'' fname)"
    by (simp add: summary_files_def)
  have m: "(''logs/0-run/ablation_summary.json'', ''ABLATION_SUMMARY'') \<in> set summary_files"
    by (simp add: summary_files_def)
  have p: "prepare_notebook_folder ''p'' ex_world_bare = (Inr (), ex_world_bare_prepared)"
    by code_simp
  have g: "gather_inputs ex_env ''p'' ex_world_bare_prepared = (Inr ex_gathered_bare, ex_world_bare_prepared)"
    by code_simp
  have c: "create_client ex_env ''m'' = Inr ''m''"
    by (simp add: ex_env_def)
  have v: "json_dumps ex_env (JObject (loaded_summaries ex_gathered_bare)) = ex_summaries_text"
    "str_join '', '' (plot_names ex_gathered_bare) = ''a.PNG''"
    "current_notebook ex_gathered_bare = []"
    "plot_descriptions_str ex_gathered_bare = ''a.PNG: a curve''"
    "llm_requests ex_world_bare = []"
    by code_simp+
  note t = missing_inputs_get_defaults [of ex_world_bare_prepared "''p''" ex_env "''m''" 0]
  from t a s m have l: "load_idea_text ''p'' ex_world_bare_prepared = (Inr [], ex_world_bare_prepared)"
    "load_summary ex_env ''p'' ''logs/0-run/ablation_summary.json'' ''ABLATION_SUMMARY''
       ex_world_bare_prepared = (Inr (JObject []), ex_world_bare_prepared)"
    "load_aggregator_code ''p'' ex_world_bare_prepared
       = (Inr ''No aggregator script found.'', ex_world_bare_prepared)"
    by blast+
  from t g a have "idea_text ex_gathered_bare = []"
    "aggregator_code ex_gathered_bare = ''No aggregator script found.''"
    "combined_prompt ex_gathered_bare =
        notebook_prompt_format (idea_text ex_gathered_bare)
          (json_dumps ex_env (JObject (loaded_summaries ex_gathered_bare)))
          (aggregator_code ex_gathered_bare) (str_join '', '' (plot_names ex_gathered_bare))
          (current_notebook ex_gathered_bare) (plot_descriptions_str ex_gathered_bare)"
    by blast+
  with v have q: "combined_prompt ex_gathered_bare =
     notebook_prompt_format [] ex_summaries_text ''No aggregator script found.'' ''a.PNG'' []
       ''a.PNG: a curve''"
    by simp
  from t g c p have "\<exists>k\<le>nat 0. llm_requests (snd (create_lab_notebook ex_env ''p'' ''m'' 0 ex_world_bare)) =
      llm_requests ex_world_bare @ combined_prompt ex_gathered_bare # replicate k reflection_prompt"
    by blast
  with v(5) q have "llm_requests (snd (create_lab_notebook ex_env ''p'' ''m'' 0 ex_world_bare)) =
     [notebook_prompt_format [] ex_summaries_text ''No aggregator script found.'' ''a.PNG'' []
        ''a.PNG: a curve'']"
    by simp
  with a s3 p l g q show ?thesis by simp
qed

subsection \<open>C3: the reflection response is not what is saved\<close>

text \<open>
  C3 says that each reflection pass saves the block of its own response. The code takes
  the block from the first response instead. In the example run the reflection response
  holds the block \<open># B\<close>, the call returns \<open>True\<close> after one pass that reports no
  change, and the notebook file holds \<open># A\<close>.
\<close>

theorem reflection_response_is_ignored:
  "get_response_from_llm ex_env reflection_prompt ''m'' notebook_system_message_template (Some 0)
     = Inr (''```markdown\<newline># B\<newline>```'', 1) \<and>
   fst (create_lab_notebook ex_env ''p'' ''m'' 3 ex_world) = Inr True \<and>
   holds_text (snd (create_lab_notebook ex_env ''p'' ''m'' 3 ex_world)) (notebook_file_of ''p'') ''# A'' \<and>
   stdout (snd (create_lab_notebook ex_env ''p'' ''m'' 3 ex_world)) =
     [Line ''Lab notebook successfully saved'', Line ''No changes in reflection step 1.'']"
  by code_simp

subsection \<open>C4: the reflection loop is bounded and exits early\<close>




subsection \<open>C5: extraction of the fenced block\<close>

text \<open>
  C5: for every response string, the search returns the content of the first fenced
  markdown block when the string contains one, and nothing otherwise. What is saved is
  that content stripped: the content is the stripped text between a run of whitespace on
  either side, and the stripped text neither starts nor ends with whitespace. When the
  first response contains a block, the second part of the \<open>try\<close> block goes on with the
  save of the stripped content; when it contains none, it returns \<open>False\<close> right after
  the request, and so does \<open>create_lab_notebook\<close>.
\<close>

theorem extraction_of_first_fenced_block:
  "(first_fenced_block s inner \<longrightarrow> re_search_markdown s = Some inner) \<and>
   (has_fenced_block s \<longrightarrow> (\<exists>inner. first_fenced_block s inner)) \<and>
   (\<not> has_fenced_block s \<longrightarrow> re_search_markdown s = None) \<and>
   (\<exists>a b. inner = a @ strip inner @ b \<and> list_all is_space a \<and> list_all is_space b \<and>
      (strip inner \<noteq> [] \<longrightarrow> \<not> is_space (hd (strip inner)) \<and> \<not> is_space (last (strip inner)))) \<and>
   (\<forall>g w cm h.
      create_client env model = Inr cm \<and>
      get_response_from_llm env (combined_prompt g) cm notebook_system_message_template None
        = Inr (s, h) \<longrightarrow>
        (first_fenced_block s inner \<longrightarrow>
           write_notebook env base model n g w =
             io_bind (save_notebook (notebook_file_of base) (strip inner))
               (\<lambda>_. reflection_loop env cm (notebook_file_of base) s [0 ..< nat n] h)
               (asked w (combined_prompt g))) \<and>
        (\<not> has_fenced_block s \<longrightarrow>
           write_notebook env base model n g w = (Inr False, asked w (combined_prompt g)))) \<and>
   (\<forall>w w1 g w2 cm h.
      prepare_notebook_folder base w = (Inr (), w1) \<and>
      gather_inputs env base w1 = (Inr g, w2) \<and>
      create_client env model = Inr cm \<and>
      get_response_from_llm env (combined_prompt g) cm notebook_system_message_template None
        = Inr (s, h) \<and>
      \<not> has_fenced_block s \<longrightarrow>
        fst (create_lab_notebook env base model n w) = Inr False)"
proof (intro conjI allI impI)
  show "first_fenced_block s inner \<Longrightarrow> re_search_markdown s = Some inner"
    by (rule re_search_markdown_first)
  show "has_fenced_block s \<Longrightarrow> \<exists>inner. first_fenced_block s inner"
    using re_search_markdown_has_block [of s] re_search_markdown_Some [of s] by auto
  show "\<not> has_fenced_block s \<Longrightarrow> re_search_markdown s = None"
    by (simp add: re_search_markdown_None_iff)
  show "\<exists>a b. inner = a @ strip inner @ b \<and> list_all is_space a \<and> list_all is_space b \<and>
      (strip inner \<noteq> [] \<longrightarrow> \<not> is_space (hd (strip inner)) \<and> \<not> is_space (last (strip inner)))"
    by (rule strip_spec)
next
  fix g w cm h
  assume a: "create_client env model = Inr cm \<and>
      get_response_from_llm env (combined_prompt g) cm notebook_system_message_template None = Inr (s, h)"
  {
    assume "first_fenced_block s inner"
    then have "re_search_markdown s = Some inner" by (rule re_search_markdown_first)
    with a show "write_notebook env base model n g w =
             io_bind (save_notebook (notebook_file_of base) (strip inner))
               (\<lambda>_. reflection_loop env cm (notebook_file_of base) s [0 ..< nat n] h)
               (asked w (combined_prompt g))"
      by (simp add: write_notebook_def io_bind_def io_of_def llm_call_def asked_def)
  }
  {
    assume "\<not> has_fenced_block s"
    then have "re_search_markdown s = None" by (simp add: re_search_markdown_None_iff)
    with a show "write_notebook env base model n g w = (Inr False, asked w (combined_prompt g))"
      by (simp add: write_notebook_def io_bind_def io_of_def llm_call_def asked_def io_return_def)
  }
next
  fix w w1 g w2 cm h
  assume a: "prepare_notebook_folder base w = (Inr (), w1) \<and>
      gather_inputs env base w1 = (Inr g, w2) \<and>
      create_client env model = Inr cm \<and>
      get_response_from_llm env (combined_prompt g) cm notebook_system_message_template None
        = Inr (s, h) \<and>
      \<not> has_fenced_block s"
  then have "re_search_markdown s = None" by (simp add: re_search_markdown_None_iff)
  with a have "write_notebook env base model n g w2 = (Inr False, asked w2 (combined_prompt g))"
    by (simp add: write_notebook_def io_bind_def io_of_def llm_call_def asked_def io_return_def)
  with a have "try_block env base model n w1 = (Inr False, asked w2 (combined_prompt g))"
    by (simp add: try_block_def io_bind_def)
  with a show "fst (create_lab_notebook env base model n w) = Inr False"
    by (simp add: create_lab_notebook_result)
qed

theorem extraction_of_first_fenced_block_witness:
  "first_fenced_block ex_first_response ''\<newline># A\<newline>'' \<and>
   re_search_markdown ex_first_response = Some ''\<newline># A\<newline>'' \<and>
   strip ''\<newline># A\<newline>'' = ''# A'' \<and>
   has_fenced_block ex_first_response \<and>
   \<not> has_fenced_block ''I cannot help with that.'' \<and>
   re_search_markdown ''I cannot help with that.'' = None \<and>
   fst (prepare_notebook_folder ''p'' ex_world) = Inr () \<and>
   create_client ex_env_no_block ''m'' = Inr ''m'' \<and>
   fst (create_lab_notebook ex_env_no_block ''p'' ''m'' 3 ex_world) = Inr False"
proof -
  have m: "re_search_markdown ex_first_response = Some ''\<newline># A\<newline>''" by code_simp
  then have fb: "first_fenced_block ex_first_response ''\<newline># A\<newline>''"
    by (rule re_search_markdown_Some)
  have st: "strip ''\<newline># A\<newline>'' = ''# A''" by code_simp
  have "re_search_markdown ''I cannot help with that.'' = None" by code_simp
  then have nb: "\<not> has_fenced_block ''I cannot help with that.''"
    using re_search_markdown_None_iff by blast
  define W1 where "W1 = snd (prepare_notebook_folder ''p'' ex_world)"
  have f: "fst (prepare_notebook_folder ''p'' ex_world) = Inr ()" by code_simp
  have p: "prepare_notebook_folder ''p'' ex_world = (Inr (), W1)"
    unfolding W1_def using f by (metis prod.collapse)
  have c: "create_client ex_env_no_block ''m'' = Inr ''m''" by code_simp
  have "\<not> isl (fst (gather_inputs ex_env_no_block ''p'' (snd (prepare_notebook_folder ''p'' ex_world))))"
    by code_simp
  then obtain g w2 where g: "gather_inputs ex_env_no_block ''p'' W1 = (Inr g, w2)"
    unfolding W1_def [symmetric]
    by (cases "gather_inputs ex_env_no_block ''p'' W1";
        cases "fst (gather_inputs ex_env_no_block ''p'' W1)") auto
  have l: "get_response_from_llm ex_env_no_block (combined_prompt g) ''m''
             notebook_system_message_template None = Inr (''I cannot help with that.'', 0)"
    by (simp add: ex_env_no_block_def)
  note t1 = extraction_of_first_fenced_block
              [of ex_first_response "''\<newline># A\<newline>''" ex_env "''m''" "''p''" 3]
  note t2 = extraction_of_first_fenced_block
              [of "''I cannot help with that.''" "[]" ex_env_no_block "''m''" "''p''" 3]
  from t1 fb have r1: "re_search_markdown ex_first_response = Some ''\<newline># A\<newline>''" by blast
  from fb have hb: "has_fenced_block ex_first_response" by (rule first_fenced_block_has_block)
  from t2 nb have r2: "re_search_markdown ''I cannot help with that.'' = None" by blast
  from t2 p g c l nb have r3: "fst (create_lab_notebook ex_env_no_block ''p'' ''m'' 3 ex_world) = Inr False"
    by blast
  show ?thesis
    by (intro conjI) (rule fb r1 st hb nb r2 f c r3)+
qed

subsection \<open>C6: the reflections keep the first block\<close>

text \<open>
  C6, as stated, fails when the stripped block of the first response holds a carriage
  return: the notebook file is read in text mode, which turns the carriage return into a
  line feed, so the text read back differs from the block, the comparison finds a change
  in every pass, and the loop saves the same block again and goes on instead of breaking.
  With two reflections the example run saves three times and sends three prompts.
\<close>

theorem carriage_return_defeats_no_change_check:
  "fst (create_lab_notebook ex_env_cr ''p'' ''m'' 2 ex_world) = Inr True \<and>
   stdout (snd (create_lab_notebook ex_env_cr ''p'' ''m'' 2 ex_world)) =
     [Line ''Lab notebook successfully saved'', Line ''Lab notebook successfully saved'',
      Line ''Lab notebook successfully saved''] \<and>
   llm_requests (snd (create_lab_notebook ex_env_cr ''p'' ''m'' 2 ex_world)) =
     [notebook_prompt_format ''idea'' ex_summaries_text ''No aggregator script found.'' ''a.PNG'' []
        ''a.PNG: a curve'',
      reflection_prompt, reflection_prompt]"
  by code_simp

text \<open>
  C6, amended: whenever the first response holds a fenced block and the first save
  succeeds, the directory tree at the end of the \<open>try\<close> block, and at the end of the
  call, is the tree right after the first save: the notebook file holds the stripped
  block of the first response, and a reflection pass can only save that same block again.
  The block of every pass is taken from the first response, so the second part of the
  \<open>try\<close> block never returns \<open>False\<close> from the loop. When reading the stripped block
  back returns it unchanged, as it does when the block holds no carriage return, at most
  one reflection prompt is sent: the first pass ends the loop.
\<close>

theorem reflections_keep_first_block:
  assumes "write_notebook env base model n g w = (r, w')"
    and "create_client env model = Inr cm"
    and "get_response_from_llm env (combined_prompt g) cm notebook_system_message_template None
           = Inr (response, h)"
    and "re_search_markdown response = Some blk"
    and "write_file (notebook_file_of base) (strip blk) (root w) = Inr t"
  shows "root w' = t \<and>
         holds_text w' (notebook_file_of base) (strip blk) \<and>
         r \<noteq> Inr False \<and>
         (universal_newlines (strip blk) = strip blk \<longrightarrow>
            (\<exists>k\<le>1. llm_requests w' =
                      llm_requests w @ combined_prompt g # replicate k reflection_prompt)) \<and>
         (CHR 0x0D \<notin> set (strip blk) \<longrightarrow>
            (\<exists>k\<le>1. llm_requests w' =
                      llm_requests w @ combined_prompt g # replicate k reflection_prompt)) \<and>
         (\<forall>w0 w1. prepare_notebook_folder base w0 = (Inr (), w1) \<and>
                   gather_inputs env base w1 = (Inr g, w) \<longrightarrow>
            root (snd (create_lab_notebook env base model n w0)) = t \<and>
            holds_text (snd (create_lab_notebook env base model n w0)) (notebook_file_of base)
              (strip blk) \<and>
            (CHR 0x0D \<notin> set (strip blk) \<longrightarrow>
               (\<exists>k\<le>1. llm_requests (snd (create_lab_notebook env base model n w0)) =
                         llm_requests w0 @ combined_prompt g # replicate k reflection_prompt)))"
proof -
  have main: "root w' = t \<and>
         holds_text w' (notebook_file_of base) (strip blk) \<and>
         r \<noteq> Inr False \<and>
         (universal_newlines (strip blk) = strip blk \<longrightarrow>
            (\<exists>k\<le>1. llm_requests w' =
                      llm_requests w @ combined_prompt g # replicate k reflection_prompt))"
    using assms(1)
  proof (cases rule: write_notebook_cases)
    case (client_failed e)
    with assms(2) show ?thesis by simp
  next
    case (llm_failed cm' e)
    with assms(2,3) show ?thesis by simp
  next
    case (no_match cm' resp h)
    with assms(2,3,4) show ?thesis by simp
  next
    case (save_failed cm' resp h' blk' e)
    with assms(2-5) show ?thesis by simp
  next
    case (reflecting cm' resp h' blk' t')
    with assms(2-5) have eq: "cm' = cm" "resp = response" "h' = h" "blk' = blk" "t' = t"
      by simp_all
    let ?w1 = "printed_line ((asked w (combined_prompt g))\<lparr>root := t\<rparr>) ''Lab notebook successfully saved''"
    have held: "holds_text ?w1 (notebook_file_of base) (strip blk)"
      using write_file_node [OF assms(5)] by (simp add: holds_text_def)
    from reflecting(5) eq have run:
      "reflection_loop env cm (notebook_file_of base) response [0 ..< nat n] h ?w1 = (r, w')"
      by simp
    from reflection_loop_fixed [OF assms(4) held run] held show ?thesis
      by (auto simp add: holds_text_def)
  qed
  have no_cr: "\<exists>k\<le>1. llm_requests w' =
                      llm_requests w @ combined_prompt g # replicate k reflection_prompt"
    if "CHR 0x0D \<notin> set (strip blk)"
    using main universal_newlines_id [OF that] by blast
  have call: "root (snd (create_lab_notebook env base model n w0)) = t \<and>
            holds_text (snd (create_lab_notebook env base model n w0)) (notebook_file_of base)
              (strip blk) \<and>
            (CHR 0x0D \<notin> set (strip blk) \<longrightarrow>
               (\<exists>k\<le>1. llm_requests (snd (create_lab_notebook env base model n w0)) =
                         llm_requests w0 @ combined_prompt g # replicate k reflection_prompt))"
    if p: "prepare_notebook_folder base w0 = (Inr (), w1) \<and> gather_inputs env base w1 = (Inr g, w)"
    for w0 w1
  proof -
    from p assms(1) have tb: "try_block env base model n w1 = (r, w')"
      by (simp add: try_block_def io_bind_def)
    have same: "root (snd (create_lab_notebook env base model n w0)) = root w'"
      "llm_requests (snd (create_lab_notebook env base model n w0)) = llm_requests w'"
      using p tb by (cases r; simp add: create_lab_notebook_result)+
    from p gather_inputs_frame [of env base w1 "Inr g" w]
      prepare_notebook_folder_quiet [of base w0 "Inr ()" w1]
    have "llm_requests w = llm_requests w0" by simp
    with same main no_cr show ?thesis by (auto simp add: holds_text_def)
  qed
  from main no_cr call show ?thesis by blast
qed

theorem reflections_keep_first_block_witness:
  "prepare_notebook_folder ''p'' ex_world = (Inr (), ex_world_prepared) \<and>
   gather_inputs ex_env ''p'' ex_world_prepared = (Inr ex_gathered, ex_world_prepared) \<and>
   absent ex_world_prepared (notebook_file_of ''p'') \<and>
   create_client ex_env ''m'' = Inr ''m'' \<and>
   get_response_from_llm ex_env (combined_prompt ex_gathered) ''m'' notebook_system_message_template None
     = Inr (ex_first_response, 0) \<and>
   re_search_markdown ex_first_response = Some ''\<newline># A\<newline>'' \<and>
   write_file (notebook_file_of ''p'') (strip ''\<newline># A\<newline>'') (root ex_world_prepared)
     = Inr (ex_tree_saved ''# A'') \<and>
   universal_newlines (strip ''\<newline># A\<newline>'') = strip ''\<newline># A\<newline>'' \<and>
   CHR 0x0D \<notin> set (strip ''\<newline># A\<newline>'') \<and>
   root (snd (write_notebook ex_env ''p'' ''m'' 3 ex_gathered ex_world_prepared)) = ex_tree_saved ''# A'' \<and>
   holds_text (snd (write_notebook ex_env ''p'' ''m'' 3 ex_gathered ex_world_prepared))
     (notebook_file_of ''p'') (strip ''\<newline># A\<newline>'') \<and>
   fst (write_notebook ex_env ''p'' ''m'' 3 ex_gathered ex_world_prepared) \<noteq> Inr False \<and>
   length (llm_requests (snd (write_notebook ex_env ''p'' ''m'' 3 ex_gathered ex_world_prepared))) \<le> 2 \<and>
   root (snd (create_lab_notebook ex_env ''p'' ''m'' 3 ex_world)) = ex_tree_saved ''# A'' \<and>
   holds_text (snd (create_lab_notebook ex_env ''p'' ''m'' 3 ex_world)) (notebook_file_of ''p'')
     (strip ''\<newline># A\<newline>'') \<and>
   length (llm_requests (snd (create_lab_notebook ex_env ''p'' ''m'' 3 ex_world))) \<le> 2"
proof -
  define R where "R = fst (write_notebook ex_env ''p'' ''m'' 3 ex_gathered ex_world_prepared)"
  define W where "W = snd (write_notebook ex_env ''p'' ''m'' 3 ex_gathered ex_world_prepared)"
  have run: "write_notebook ex_env ''p'' ''m'' 3 ex_gathered ex_world_prepared = (R, W)"
    unfolding R_def W_def by (rule prod.collapse [symmetric])
  have p: "prepare_notebook_folder ''p'' ex_world = (Inr (), ex_world_prepared)" by code_simp
  have gi: "gather_inputs ex_env ''p'' ex_world_prepared = (Inr ex_gathered, ex_world_prepared)"
    by code_simp
  have a: "absent ex_world_prepared (notebook_file_of ''p'')" by code_simp
  have c: "create_client ex_env ''m'' = Inr ''m''" by code_simp
  have l: "get_response_from_llm ex_env (combined_prompt ex_gathered) ''m''
             notebook_system_message_template None = Inr (ex_first_response, 0)" by code_simp
  have m: "re_search_markdown ex_first_response = Some ''\<newline># A\<newline>''" by code_simp
  have w: "write_file (notebook_file_of ''p'') (strip ''\<newline># A\<newline>'') (root ex_world_prepared)
             = Inr (ex_tree_saved ''# A'')" by code_simp
  have u: "universal_newlines (strip ''\<newline># A\<newline>'') = strip ''\<newline># A\<newline>''" by code_simp
  have s: "strip ''\<newline># A\<newline>'' = ''# A''" by code_simp
  have n: "CHR 0x0D \<notin> set (strip ''\<newline># A\<newline>'')" unfolding s by simp
  have l0: "llm_requests ex_world_prepared = []" "llm_requests ex_world = []" by code_simp+
  note t = reflections_keep_first_block [OF run c l m w]
  from t have r1: "root W = ex_tree_saved ''# A''"
    and r2: "holds_text W (notebook_file_of ''p'') (strip ''\<newline># A\<newline>'')"
    and r3: "R \<noteq> Inr False"
    by blast+
  from t u obtain k where "k \<le> 1"
    "llm_requests W = llm_requests ex_world_prepared @ combined_prompt ex_gathered # replicate k reflection_prompt"
    by blast
  with l0 have r4: "length (llm_requests W) \<le> 2" by simp
  from t p gi have r5: "root (snd (create_lab_notebook ex_env ''p'' ''m'' 3 ex_world)) = ex_tree_saved ''# A''"
    and r6: "holds_text (snd (create_lab_notebook ex_env ''p'' ''m'' 3 ex_world)) (notebook_file_of ''p'')
     (strip ''\<newline># A\<newline>'')"
    by blast+
  from t p gi n obtain k' where "k' \<le> 1"
    "llm_requests (snd (create_lab_notebook ex_env ''p'' ''m'' 3 ex_world)) =
       llm_requests ex_world @ combined_prompt ex_gathered # replicate k' reflection_prompt"
    by blast
  with l0 have r7: "length (llm_requests (snd (create_lab_notebook ex_env ''p'' ''m'' 3 ex_world))) \<le> 2"
    by simp
  show ?thesis
    by (intro conjI)
       (rule p gi a c l m w u n r1 [unfolded W_def] r2 [unfolded W_def] r3 [unfolded R_def]
             r4 [unfolded W_def] r5 r6 r7)+
qed

subsection \<open>C7: the notebook in the first prompt\<close>




subsection \<open>C8: summary files that are missing or not valid JSON\<close>

text \<open>
  C8: for each of the three summary files, a missing file yields the empty object with no
  other effect; a file whose content \<open>json.load\<close> rejects with \<open>JSONDecodeError\<close> yields
  the empty object after the warning is printed. In both cases the step returns normally,
  and whenever the loop over the three files completes, the dictionary \<open>loaded_summaries\<close>
  holds the empty object under that file's key (and the warning is on standard output).
\<close>

theorem summaries_default_to_empty_object:
  assumes "(fname, key) \<in> set summary_files"
  shows
    "(absent w (osp_join base fname) \<longrightarrow>
        load_summary env base fname key w = (Inr (JObject []), w)) \<and>
     (\<forall>c. holds_text w (osp_join base fname) c \<and>
          json_load env (universal_newlines c) = Inl JSONDecodeError \<longrightarrow>
        load_summary env base fname key w =
          (Inr (JObject []), w\<lparr>stdout := stdout w @ [json_warning fname key]\<rparr>)) \<and>
     (\<forall>loaded w'. load_summaries env base summary_files [] w = (Inr loaded, w') \<longrightarrow>
        (absent w (osp_join base fname) \<longrightarrow> map_of loaded key = Some (JObject [])) \<and>
        (\<forall>c. holds_text w (osp_join base fname) c \<and>
             json_load env (universal_newlines c) = Inl JSONDecodeError \<longrightarrow>
           map_of loaded key = Some (JObject []) \<and> json_warning fname key \<in> set (stdout w')))"
proof (intro conjI allI impI)
  show "absent w (osp_join base fname) \<Longrightarrow> load_summary env base fname key w = (Inr (JObject []), w)"
    by (rule load_summary_absent)
next
  fix c
  assume "holds_text w (osp_join base fname) c \<and> json_load env (universal_newlines c) = Inl JSONDecodeError"
  then show "load_summary env base fname key w =
          (Inr (JObject []), w\<lparr>stdout := stdout w @ [json_warning fname key]\<rparr>)"
    by (blast intro: load_summary_invalid)
next
  fix loaded w'
  assume run: "load_summaries env base summary_files [] w = (Inr loaded, w')"
  have d: "distinct (map snd summary_files)" by (simp add: summary_files_def)
  from load_summaries_value [OF run assms d] obtain w1 w2 v where
    v: "load_summary env base fname key w1 = (Inr v, w2)" "root w1 = root w"
       "prefix (stdout w2) (stdout w')" "map_of loaded key = Some v"
    by blast
  {
    assume "absent w (osp_join base fname)"
    with v(2) have "absent w1 (osp_join base fname)" by (simp add: absent_def)
    from load_summary_absent [OF this, of env key] v show "map_of loaded key = Some (JObject [])"
      by simp
  }
  {
    fix c
    assume "holds_text w (osp_join base fname) c \<and> json_load env (universal_newlines c) = Inl JSONDecodeError"
    with v(2) have h: "holds_text w1 (osp_join base fname) c"
       "json_load env (universal_newlines c) = Inl JSONDecodeError" by (simp_all add: holds_text_def)
    from load_summary_invalid [OF h, of key] v(1) have
       "v = JObject []" "w2 = w1\<lparr>stdout := stdout w1 @ [json_warning fname key]\<rparr>" by simp_all
    then have "json_warning fname key \<in> set (stdout w2)" by simp
    with set_mono_prefix [OF v(3)] have "json_warning fname key \<in> set (stdout w')" by blast
    with \<open>v = JObject []\<close> v(4)
    show "map_of loaded key = Some (JObject [])" "json_warning fname key \<in> set (stdout w')"
      by simp_all
  }
qed

theorem summaries_default_to_empty_object_witness:
  "holds_text ex_world_logs (osp_join ''p'' ''logs/0-run/research_summary.json'') ''not json'' \<and>
   json_load ex_env (universal_newlines ''not json'') = Inl JSONDecodeError \<and>
   absent ex_world_logs (osp_join ''p'' ''logs/0-run/ablation_summary.json'') \<and>
   load_summaries ex_env ''p'' summary_files [] ex_world_logs =
     (Inr [(''BASELINE_SUMMARY'', JObject []), (''RESEARCH_SUMMARY'', JObject []),
           (''ABLATION_SUMMARY'', JObject [])],
      ex_world_logs\<lparr>stdout := [json_warning ''logs/0-run/research_summary.json'' ''RESEARCH_SUMMARY'']\<rparr>) \<and>
   load_summary ex_env ''p'' ''logs/0-run/research_summary.json'' ''RESEARCH_SUMMARY'' ex_world_logs =
     (Inr (JObject []),
      ex_world_logs\<lparr>stdout := stdout ex_world_logs @
         [json_warning ''logs/0-run/research_summary.json'' ''RESEARCH_SUMMARY'']\<rparr>) \<and>
   load_summary ex_env ''p'' ''logs/0-run/ablation_summary.json'' ''ABLATION_SUMMARY'' ex_world_logs =
     (Inr (JObject []), ex_world_logs)"
proof -
  have m1: "(''logs/0-run/research_summary.json'', ''RESEARCH_SUMMARY'') \<in> set summary_files"
    by (simp add: summary_files_def)
  have m2: "(''logs/0-run/ablation_summary.json'', ''ABLATION_SUMMARY'') \<in> set summary_files"
    by (simp add: summary_files_def)
  have h: "holds_text ex_world_logs (osp_join ''p'' ''logs/0-run/research_summary.json'') ''not json''"
    by code_simp
  have j: "json_load ex_env (universal_newlines ''not json'') = Inl JSONDecodeError"
    by code_simp
  have a: "absent ex_world_logs (osp_join ''p'' ''logs/0-run/ablation_summary.json'')"
    by code_simp
  have r: "load_summaries ex_env ''p'' summary_files [] ex_world_logs =
     (Inr [(''BASELINE_SUMMARY'', JObject []), (''RESEARCH_SUMMARY'', JObject []),
           (''ABLATION_SUMMARY'', JObject [])],
      ex_world_logs\<lparr>stdout := [json_warning ''logs/0-run/research_summary.json'' ''RESEARCH_SUMMARY'']\<rparr>)"
    by code_simp
  from summaries_default_to_empty_object [OF m1, of ex_world_logs "''p''" ex_env]
       summaries_default_to_empty_object [OF m2, of ex_world_logs "''p''" ex_env]
       h j a r
  show ?thesis by blast
qed

subsection \<open>C9: the plot list and the plot descriptions\<close>

text \<open>
  C9, as stated, fails when the description block raises: the plot list still names the
  plots, but the descriptions text is \<open>No descriptions available.\<close> and pairs no name
  with a description. In the example world with a vision client that cannot be created,
  the prompt lists \<open>a.PNG\<close> and carries that text.
\<close>

theorem descriptions_unavailable_in_prompt:
  "llm_requests (snd (create_lab_notebook ex_env_no_vlm ''p'' ''m'' 0 ex_world)) =
     [notebook_prompt_format ''idea'' ex_summaries_text ''No aggregator script found.'' ''a.PNG'' []
        ''No descriptions available.'']"
  by code_simp

text \<open>
  C9, amended: the plot names are exactly the entries of the figures directory whose
  lower-cased name ends with \<open>.png\<close>, in the order of the listing, and they are joined
  into the prompt's plot list. When the vision client is created and every review of an
  existing plot returns, the descriptions text has one line \<open>name: description\<close> per plot
  name, in the order of the names, the description being the one generated for that plot
  (or \<open>No description found\<close> when the review is empty or has none). Otherwise the
  descriptions text is \<open>No descriptions available.\<close>.
\<close>

theorem plot_list_and_descriptions:
  assumes "gather_inputs env base w = (Inr g, w')"
    and "node_at (root w) (osp_join base ''figures'') = Inr (Dir es)"
  shows
    "plot_names g = filter (\<lambda>f. endswith (str_lower f) ''.png'') (map fst es) \<and>
     combined_prompt g =
       notebook_prompt_format (idea_text g) (combined_summaries_str g) (aggregator_code g)
         (str_join '', '' (plot_names g)) (current_notebook g) (plot_descriptions_str g) \<and>
     (reviews_succeed env w (osp_join base ''figures'') (plot_names g) \<longrightarrow>
        plot_descriptions_str g =
          str_join ''\<newline>''
            (map (\<lambda>f. f @ '': '' @ plot_description env w (osp_join base ''figures'') f)
               (plot_names g))) \<and>
     (\<not> reviews_succeed env w (osp_join base ''figures'') (plot_names g) \<longrightarrow>
        plot_descriptions_str g = ''No descriptions available.'')"
proof -
  from gather_inputs_Inr [OF assms(1)] obtain w1 where
    s: "gather_plot_names (osp_join base ''figures'') w1 = (Inr (plot_names g), w1)"
       "describe_plots env (osp_join base ''figures'') (plot_names g) w1
             = (Inr (plot_descriptions_str g), w')"
       "root w1 = root w"
    by blast
  from assms(2) s(3) have "node_at (root w1) (osp_join base ''figures'') = Inr (Dir es)"
    by simp
  from gather_plot_names_dir [OF this] s(1)
  have names: "plot_names g = filter (\<lambda>f. endswith (str_lower f) ''.png'') (map fst es)"
    by simp
  have same: "reviews_succeed env w1 fd ns = reviews_succeed env w fd ns"
     "plot_description env w1 fd f = plot_description env w fd f" for fd ns f
    using s(3) by (simp_all add: reviews_succeed_def plot_description_def absent_def)
  have ok: "plot_descriptions_str g =
          str_join ''\<newline>''
            (map (\<lambda>f. f @ '': '' @ plot_description env w (osp_join base ''figures'') f)
               (plot_names g))"
    if "reviews_succeed env w (osp_join base ''figures'') (plot_names g)"
    using describe_plots_ok [of env w1 "osp_join base ''figures''" "plot_names g"] that s(2)
    by (simp add: same)
  have bad: "plot_descriptions_str g = ''No descriptions available.''"
    if "\<not> reviews_succeed env w (osp_join base ''figures'') (plot_names g)"
    using describe_plots_failed [of env w1 "osp_join base ''figures''" "plot_names g"] that s(2)
    by (auto simp add: same)
  from names ok bad show ?thesis by (simp add: combined_prompt_def)
qed

theorem plot_list_and_descriptions_witness:
  "(\<exists>g w'. gather_inputs ex_env ''p'' ex_world = (Inr g, w') \<and>
      reviews_succeed ex_env ex_world (osp_join ''p'' ''figures'') (plot_names g) \<and>
      plot_names g = [''a.PNG''] \<and>
      plot_descriptions_str g = ''a.PNG: a curve'') \<and>
   (\<exists>g w'. gather_inputs ex_env_no_vlm ''p'' ex_world = (Inr g, w') \<and>
      \<not> reviews_succeed ex_env_no_vlm ex_world (osp_join ''p'' ''figures'') (plot_names g) \<and>
      plot_names g = [''a.PNG''] \<and>
      plot_descriptions_str g = ''No descriptions available.'')"
proof -
  have d: "node_at (root ex_world) (osp_join ''p'' ''figures'')
             = Inr (Dir [(''a.PNG'', File ''img''), (''b.txt'', File ''t'')])"
    by code_simp
  have n: "filter (\<lambda>f. endswith (str_lower f) ''.png'')
             (map fst [(''a.PNG'', File ''img''), (''b.txt'', File ''t'')]) = [''a.PNG'']"
    by code_simp
  have ok: "reviews_succeed ex_env ex_world (osp_join ''p'' ''figures'') [''a.PNG'']"
    by code_simp
  have bad: "\<not> reviews_succeed ex_env_no_vlm ex_world (osp_join ''p'' ''figures'') [''a.PNG'']"
    by code_simp
  have descr: "str_join ''\<newline>''
               (map (\<lambda>f. f @ '': '' @ plot_description ex_env ex_world (osp_join ''p'' ''figures'') f)
                  [''a.PNG'']) = ''a.PNG: a curve''"
    by code_simp
  have "\<not> isl (fst (gather_inputs ex_env ''p'' ex_world))" by code_simp
  then obtain g1 w1 where g1: "gather_inputs ex_env ''p'' ex_world = (Inr g1, w1)"
    by (cases "gather_inputs ex_env ''p'' ex_world"; cases "fst (gather_inputs ex_env ''p'' ex_world)")
       auto
  have "\<not> isl (fst (gather_inputs ex_env_no_vlm ''p'' ex_world))" by code_simp
  then obtain g2 w2 where g2: "gather_inputs ex_env_no_vlm ''p'' ex_world = (Inr g2, w2)"
    by (cases "gather_inputs ex_env_no_vlm ''p'' ex_world";
        cases "fst (gather_inputs ex_env_no_vlm ''p'' ex_world)") auto
  from plot_list_and_descriptions [OF g1 d] n ok descr
  have "plot_names g1 = [''a.PNG''] \<and> plot_descriptions_str g1 = ''a.PNG: a curve''"
    by simp
  moreover from plot_list_and_descriptions [OF g2 d] n bad
  have "plot_names g2 = [''a.PNG''] \<and> plot_descriptions_str g2 = ''No descriptions available.''"
    by simp
  ultimately show ?thesis using g1 g2 ok bad by auto
qed

subsection \<open>C10: a save overwrites the notebook file and nothing else\<close>



end
